theory Spec2Isabelle
  imports Complex_Main "HOL-Library.Sublist" "HOL-Library.Word"
begin

section \<open>Strings\<close>

text \<open>
  A JavaScript string is a sequence of UTF-16 code units. The literals of the source are
  ASCII; \<open>ascii\<close> turns such a literal into its code units.
\<close>

type_synonym code_unit = "16 word"

type_synonym jsstring = "code_unit list"

definition ascii :: "string \<Rightarrow> jsstring" where
  "ascii s = map of_char s"

section \<open>JavaScript values and exceptions\<close>

text \<open>
  The values that \<^verbatim>\<open>JSON.parse\<close> produces. A number is kept by its numeric value (only
  its being zero or not is ever inspected); an object is the list of its own properties in
  the order in which they are enumerated, read with \<open>map_of\<close>.
\<close>

datatype json =
    JNull
  | JBool bool
  | JNum rat
  | JStr jsstring
  | JArr "json list"
  | JObj "(jsstring \<times> json) list"

text \<open>What a \<^verbatim>\<open>try\<close> block can catch.\<close>

datatype exn =
    SyntaxError
  | TypeError
  | Error jsstring
  | StorageError jsstring

text \<open>
  Property read \<^verbatim>\<open>item.key\<close>. Reading a property of \<^verbatim>\<open>null\<close> throws a TypeError; an
  absent property is \<^verbatim>\<open>undefined\<close> (\<open>None\<close>). The keys read by this program
  (\<^verbatim>\<open>id\<close>, \<^verbatim>\<open>category\<close>, \<^verbatim>\<open>prompt\<close>) are no prototype properties of strings, numbers,
  booleans or arrays, so on those the read is \<^verbatim>\<open>undefined\<close> as well.
\<close>

fun get_prop :: "json \<Rightarrow> jsstring \<Rightarrow> exn + json option" where
  "get_prop JNull k = Inl TypeError"
| "get_prop (JObj kvs) k = Inr (map_of kvs k)"
| "get_prop (JBool b) k = Inr None"
| "get_prop (JNum n) k = Inr None"
| "get_prop (JStr s) k = Inr None"
| "get_prop (JArr xs) k = Inr None"

text \<open>
  Truthiness, as \<^verbatim>\<open>&&\<close> and \<^verbatim>\<open>if\<close> test it: \<^verbatim>\<open>undefined\<close>, \<^verbatim>\<open>null\<close>, \<^verbatim>\<open>false\<close>, zero
  and the empty string are falsy, every other value is truthy.
\<close>

fun truthy :: "json option \<Rightarrow> bool" where
  "truthy None = False"
| "truthy (Some JNull) = False"
| "truthy (Some (JBool b)) = b"
| "truthy (Some (JNum n)) = (n \<noteq> 0)"
| "truthy (Some (JStr s)) = (s \<noteq> [])"
| "truthy (Some (JArr xs)) = True"
| "truthy (Some (JObj kvs)) = True"

section \<open>Backup import (components/DataSettingsModal.tsx, handleFileChange)\<close>

datatype status_type = success | error

text \<open>
  The texts of the status messages are fixed (non-ASCII) literals of the source; the one
  of a finished import embeds the number of restored records.
\<close>

datatype status_text =
    ExportDone
  | ExportFailed
  | Restored nat
  | ImportFailed

record statusMsg =
  msg_type :: status_type
  msg_text :: status_text

text \<open>
  The guard of the loop body, \<^verbatim>\<open>item.id && item.category && item.prompt\<close>, evaluated
  left to right with short-circuit.
\<close>

definition item_guard :: "json \<Rightarrow> exn + bool" where
  "item_guard item =
     (case get_prop item (ascii ''id'') of
        Inl e \<Rightarrow> Inl e
      | Inr a \<Rightarrow>
          if \<not> truthy a then Inr False
          else (case get_prop item (ascii ''category'') of
                  Inl e \<Rightarrow> Inl e
                | Inr b \<Rightarrow>
                    if \<not> truthy b then Inr False
                    else (case get_prop item (ascii ''prompt'') of
                            Inl e \<Rightarrow> Inl e
                          | Inr c \<Rightarrow> Inr (truthy c))))"

text \<open>
  The \<^verbatim>\<open>for (const item of parsedData)\<close> loop. The storage service \<^verbatim>\<open>db\<close> is a module
  outside the sources: its \<^verbatim>\<open>save\<close> is the parameter \<open>save\<close>, which returns the new
  storage state or the exception it rejects with. The loop state is the storage state,
  the records handed to \<^verbatim>\<open>db.save\<close> so far (in call order) and \<^verbatim>\<open>count\<close>. An exception
  leaves the loop with what was stored before it.
\<close>

fun import_loop ::
  "('db \<Rightarrow> json \<Rightarrow> exn + 'db) \<Rightarrow> json list \<Rightarrow> 'db \<Rightarrow> json list \<Rightarrow> nat
     \<Rightarrow> 'db \<times> json list \<times> (exn + nat)" where
  "import_loop save [] d calls n = (d, calls, Inr n)"
| "import_loop save (item # rest) d calls n =
     (case item_guard item of
        Inl e \<Rightarrow> (d, calls, Inl e)
      | Inr False \<Rightarrow> import_loop save rest d calls n
      | Inr True \<Rightarrow>
          (case save d item of
             Inl e \<Rightarrow> (d, calls @ [item], Inl e)
           | Inr d' \<Rightarrow> import_loop save rest d' (calls @ [item]) (n + 1)))"

record 'db import_outcome =
  db :: 'db
  save_calls :: "json list"
  statusMsg :: "statusMsg option"
  onDataUpdate_called :: bool

text \<open>
  The body of \<^verbatim>\<open>reader.onload\<close>: parse, require an array, run the loop, report.
  \<open>parse\<close> stands for \<^verbatim>\<open>JSON.parse\<close> on the file's text. Every exception of the
  \<^verbatim>\<open>try\<close> block ends in the same error message; \<^verbatim>\<open>onDataUpdate\<close> is called on the
  success path only.
\<close>

definition import_failed :: "'db \<Rightarrow> json list \<Rightarrow> 'db import_outcome" where
  "import_failed d calls =
     \<lparr>db = d, save_calls = calls,
      statusMsg = Some \<lparr>msg_type = error, msg_text = ImportFailed\<rparr>,
      onDataUpdate_called = False\<rparr>"

fun isArray :: "json \<Rightarrow> bool" where
  "isArray (JArr xs) = True"
| "isArray v = False"

fun elements :: "json \<Rightarrow> json list" where
  "elements (JArr xs) = xs"
| "elements v = []"

definition import_parsed ::
  "('db \<Rightarrow> json \<Rightarrow> exn + 'db) \<Rightarrow> json \<Rightarrow> 'db \<Rightarrow> 'db import_outcome" where
  "import_parsed save parsedData d =
     (if \<not> isArray parsedData then import_failed d []
      else (case import_loop save (elements parsedData) d [] 0 of
              (d', calls, Inl e) \<Rightarrow> import_failed d' calls
            | (d', calls, Inr n) \<Rightarrow>
                \<lparr>db = d', save_calls = calls,
                 statusMsg = Some \<lparr>msg_type = success, msg_text = Restored n\<rparr>,
                 onDataUpdate_called = True\<rparr>))"

definition handleFileChange ::
  "('b \<Rightarrow> exn + json) \<Rightarrow> ('db \<Rightarrow> json \<Rightarrow> exn + 'db) \<Rightarrow> 'b \<Rightarrow> 'db \<Rightarrow> 'db import_outcome" where
  "handleFileChange parse save jsonContent d =
     (case parse jsonContent of
        Inl e \<Rightarrow> import_failed d []
      | Inr parsedData \<Rightarrow> import_parsed save parsedData d)"

text \<open>
  What the guard amounts to on an element: each of the three properties is read without
  an exception and is truthy.
\<close>

definition has_truthy :: "json \<Rightarrow> jsstring \<Rightarrow> bool" where
  "has_truthy item k = (case get_prop item k of Inl e \<Rightarrow> False | Inr v \<Rightarrow> truthy v)"

definition importable :: "json \<Rightarrow> bool" where
  "importable item \<longleftrightarrow>
     has_truthy item (ascii ''id'') \<and> has_truthy item (ascii ''category'')
     \<and> has_truthy item (ascii ''prompt'')"

section \<open>The storage service\<close>

text \<open>
  Modelled from the spec: the module \<^verbatim>\<open>services/db\<close> is not among the sources. Section 4.1
  of the specification describes it as one flat collection keyed by \<^verbatim>\<open>id\<close>, where
  \<^verbatim>\<open>save\<close> creates the record if its id is absent and fully replaces the stored record if
  it is present, and \<^verbatim>\<open>getAll\<close> returns every stored record. The collection is kept
  as a list in order of first insertion (the specification promises no order).
\<close>

type_synonym store = "json list"

definition record_key :: "json \<Rightarrow> json option" where
  "record_key r = (case get_prop r (ascii ''id'') of Inl e \<Rightarrow> None | Inr v \<Rightarrow> v)"

definition upsert :: "store \<Rightarrow> json \<Rightarrow> store" where
  "upsert st r =
     (if \<exists>x \<in> set st. record_key x = record_key r
      then map (\<lambda>x. if record_key x = record_key r then r else x) st
      else st @ [r])"

definition db_save :: "store \<Rightarrow> json \<Rightarrow> exn + store" where
  "db_save st r = Inr (upsert st r)"

definition db_getAll :: "store \<Rightarrow> exn + json list" where
  "db_getAll st = Inr st"

section \<open>Backup export (components/DataSettingsModal.tsx, handleExport)\<close>

text \<open>
  \<^verbatim>\<open>JSON.stringify(items, null, 2)\<close> on everything \<^verbatim>\<open>db.getAll()\<close> returns: no replacer, so
  no property is projected away. \<open>stringify\<close> stands for the serializer, which may throw.
  The result is the text of the downloaded file (if any) and the status message.
\<close>

definition handleExport ::
  "('db \<Rightarrow> exn + json list) \<Rightarrow> (json \<Rightarrow> exn + 'b) \<Rightarrow> 'db \<Rightarrow> 'b option \<times> statusMsg" where
  "handleExport getAll stringify d =
     (case getAll d of
        Inl e \<Rightarrow> (None, \<lparr>msg_type = error, msg_text = ExportFailed\<rparr>)
      | Inr stored \<Rightarrow>
          (case stringify (JArr stored) of
             Inl e \<Rightarrow> (None, \<lparr>msg_type = error, msg_text = ExportFailed\<rparr>)
           | Inr dataStr \<Rightarrow> (Some dataStr, \<lparr>msg_type = success, msg_text = ExportDone\<rparr>)))"

section \<open>The data model (types.ts)\<close>

datatype CategoryType = txt2img | img2img | img2vid | txt2vid | general

record PromptItem =
  id_of :: jsstring
  title :: jsstring
  prompt :: jsstring
  negativePrompt :: "jsstring option"
  category :: CategoryType
  outputMediaUrl :: "jsstring option"
  inputMediaUrl :: "jsstring option"
  modelUsed :: "jsstring option"
  tags :: "jsstring list"
  isVideo :: "bool option"

text \<open>The string each category tag is at run time, and a typed record as a run-time object.\<close>

fun category_string :: "CategoryType \<Rightarrow> jsstring" where
  "category_string txt2img = ascii ''txt2img''"
| "category_string img2img = ascii ''img2img''"
| "category_string img2vid = ascii ''img2vid''"
| "category_string txt2vid = ascii ''txt2vid''"
| "category_string general = ascii ''general''"

definition optional_prop ::
  "jsstring \<Rightarrow> ('a \<Rightarrow> json) \<Rightarrow> 'a option \<Rightarrow> (jsstring \<times> json) list" where
  "optional_prop k f v = (case v of None \<Rightarrow> [] | Some x \<Rightarrow> [(k, f x)])"

definition toJS :: "PromptItem \<Rightarrow> json" where
  "toJS r =
     JObj ([(ascii ''id'', JStr (id_of r)),
            (ascii ''title'', JStr (title r)),
            (ascii ''prompt'', JStr (prompt r))]
           @ optional_prop (ascii ''negativePrompt'') JStr (negativePrompt r)
           @ [(ascii ''category'', JStr (category_string (category r)))]
           @ optional_prop (ascii ''outputMediaUrl'') JStr (outputMediaUrl r)
           @ optional_prop (ascii ''inputMediaUrl'') JStr (inputMediaUrl r)
           @ optional_prop (ascii ''modelUsed'') JStr (modelUsed r)
           @ [(ascii ''tags'', JArr (map JStr (tags r)))]
           @ optional_prop (ascii ''isVideo'') JBool (isVideo r))"

text \<open>
  The acceptance rule of an import in the specification's words: a non-empty \<^verbatim>\<open>id\<close>, a
  \<^verbatim>\<open>category\<close> that is one of the five tags, a non-empty \<^verbatim>\<open>prompt\<close>. It is compared with
  what \<open>item_guard\<close> tests.
\<close>

definition spec_recognized_category :: "json \<Rightarrow> bool" where
  "spec_recognized_category item =
     (case get_prop item (ascii ''category'') of
        Inr (Some (JStr c)) \<Rightarrow>
          c \<in> set (map category_string [txt2img, img2img, img2vid, txt2vid, general])
      | _ \<Rightarrow> False)"

definition spec_accepts :: "json \<Rightarrow> bool" where
  "spec_accepts item \<longleftrightarrow>
     has_truthy item (ascii ''id'') \<and> spec_recognized_category item
     \<and> has_truthy item (ascii ''prompt'')"

text \<open>
  The number of rejected elements of a payload, in the specification's sense: those that
  are not accepted.
\<close>

definition spec_rejected :: "json list \<Rightarrow> nat" where
  "spec_rejected payload = length (filter (\<lambda>item. \<not> importable item) payload)"

section \<open>String operations\<close>

text \<open>\<^verbatim>\<open>s.includes(q)\<close>: \<open>q\<close> occurs in \<open>s\<close> as a contiguous run of code units.\<close>

fun includes_str :: "jsstring \<Rightarrow> jsstring \<Rightarrow> bool" where
  "includes_str [] q = (q = [])"
| "includes_str (c # s) q = (prefix q (c # s) \<or> includes_str s q)"

text \<open>
  \<^verbatim>\<open>s.trim()\<close> strips, from both ends, the code units that are white space or line
  terminators: TAB, LF, VT, FF, CR, SPACE, NO-BREAK SPACE, OGHAM SPACE MARK, the spaces
  U+2000 to U+200A, LINE SEPARATOR, PARAGRAPH SEPARATOR, NARROW NO-BREAK SPACE, MEDIUM
  MATHEMATICAL SPACE, IDEOGRAPHIC SPACE and the byte order mark U+FEFF.
\<close>

definition isWhiteSpace :: "code_unit \<Rightarrow> bool" where
  "isWhiteSpace c =
     (c \<in> set [0x0009, 0x000A, 0x000B, 0x000C, 0x000D, 0x0020, 0x00A0, 0x1680,
               0x2000, 0x2001, 0x2002, 0x2003, 0x2004, 0x2005, 0x2006, 0x2007,
               0x2008, 0x2009, 0x200A, 0x2028, 0x2029, 0x202F, 0x205F, 0x3000, 0xFEFF])"

definition trim :: "jsstring \<Rightarrow> jsstring" where
  "trim s = rev (dropWhile isWhiteSpace (rev (dropWhile isWhiteSpace s)))"

text \<open>\<^verbatim>\<open>n.toString()\<close> of a non-negative integer: its decimal digits.\<close>

definition digit_char :: "nat \<Rightarrow> code_unit" where
  "digit_char d = ascii ''0123456789'' ! d"

fun toString :: "nat \<Rightarrow> jsstring" where
  "toString n =
     (if n < 10 then [digit_char n] else toString (n div 10) @ [digit_char (n mod 10)])"

declare toString.simps [simp del]



section \<open>Filtering (App.tsx, filteredItems)\<close>

definition matchesSearch :: "(jsstring \<Rightarrow> jsstring) \<Rightarrow> jsstring \<Rightarrow> PromptItem \<Rightarrow> bool" where
  "matchesSearch toLowerCase searchQuery item =
     (includes_str (toLowerCase (title item)) (toLowerCase searchQuery)
      \<or> includes_str (toLowerCase (prompt item)) (toLowerCase searchQuery)
      \<or> list_ex (\<lambda>tag. includes_str (toLowerCase tag) (toLowerCase searchQuery)) (tags item))"

definition filteredItems ::
  "(jsstring \<Rightarrow> jsstring) \<Rightarrow> PromptItem list \<Rightarrow> CategoryType \<Rightarrow> jsstring \<Rightarrow> PromptItem list" where
  "filteredItems toLowerCase its activeCategory searchQuery =
     filter (\<lambda>item. category item = activeCategory \<and> matchesSearch toLowerCase searchQuery item)
       its"

section \<open>JSON texts (JSON.stringify and JSON.parse)\<close>

text \<open>
  The two built-ins that export and import call, on the values of type \<open>json\<close>. What
  they do with numbers (the digits \<^verbatim>\<open>Number::toString\<close> prints, the double a literal
  denotes) is left to the parameters \<open>number_text\<close> and \<open>number_value\<close>.
\<close>

subsection \<open>Serializing: \<^verbatim>\<open>JSON.stringify(value, null, 2)\<close>\<close>

definition hex_digit :: "nat \<Rightarrow> code_unit" where
  "hex_digit d = ascii ''0123456789abcdef'' ! d"

text \<open>\<^verbatim>\<open>\uXXXX\<close> with four lower-case hexadecimal digits.\<close>

definition unicode_escape :: "code_unit \<Rightarrow> jsstring" where
  "unicode_escape c =
     [0x5C, 0x75, hex_digit (unat c div 4096), hex_digit (unat c div 256 mod 16),
      hex_digit (unat c div 16 mod 16), hex_digit (unat c mod 16)]"

definition is_leading_surrogate :: "code_unit \<Rightarrow> bool" where
  "is_leading_surrogate c \<longleftrightarrow> 0xD800 \<le> c \<and> c \<le> 0xDBFF"

definition is_trailing_surrogate :: "code_unit \<Rightarrow> bool" where
  "is_trailing_surrogate c \<longleftrightarrow> 0xDC00 \<le> c \<and> c \<le> 0xDFFF"

text \<open>
  A code unit that is no surrogate: backspace, tab, line feed, form feed, carriage return,
  the double quote and the backslash have two-character escapes, the other control
  characters are written as \<^verbatim>\<open>\uXXXX\<close>, everything else stands for itself.
\<close>

definition quote_unit :: "code_unit \<Rightarrow> jsstring" where
  "quote_unit c =
     (if c = 0x08 then [0x5C, 0x62]
      else if c = 0x09 then [0x5C, 0x74]
      else if c = 0x0A then [0x5C, 0x6E]
      else if c = 0x0C then [0x5C, 0x66]
      else if c = 0x0D then [0x5C, 0x72]
      else if c = 0x22 then [0x5C, 0x22]
      else if c = 0x5C then [0x5C, 0x5C]
      else if c < 0x20 then unicode_escape c
      else [c])"

text \<open>
  A leading surrogate followed by a trailing one is a code point above U+FFFF and stands
  for itself; a surrogate on its own is written as \<^verbatim>\<open>\uXXXX\<close>.
\<close>

fun quote_units :: "jsstring \<Rightarrow> jsstring" where
  "quote_units [] = []"
| "quote_units [c] =
     (if is_leading_surrogate c \<or> is_trailing_surrogate c then unicode_escape c
      else quote_unit c)"
| "quote_units (c # d # cs) =
     (if is_leading_surrogate c \<and> is_trailing_surrogate d then c # d # quote_units cs
      else if is_leading_surrogate c \<or> is_trailing_surrogate c
        then unicode_escape c @ quote_units (d # cs)
      else quote_unit c @ quote_units (d # cs))"

definition quote_json_string :: "jsstring \<Rightarrow> jsstring" where
  "quote_json_string s = [0x22] @ quote_units s @ [0x22]"

definition join :: "jsstring \<Rightarrow> jsstring list \<Rightarrow> jsstring" where
  "join separator parts =
     (case parts of [] \<Rightarrow> [] | p # ps \<Rightarrow> p @ concat (map ((@) separator) ps))"

text \<open>
  \<open>serialize number_text indent value\<close>: the text of \<open>value\<close> when the enclosing
  structure is indented by \<open>indent\<close> spaces; the gap is two spaces. An empty array or
  object is \<^verbatim>\<open>[]\<close> or \<^verbatim>\<open>{}\<close>; otherwise every element or member is on a line of its own.
\<close>

fun serialize :: "(rat \<Rightarrow> jsstring) \<Rightarrow> nat \<Rightarrow> json \<Rightarrow> jsstring" where
  "serialize number_text indent JNull = ascii ''null''"
| "serialize number_text indent (JBool b) = (if b then ascii ''true'' else ascii ''false'')"
| "serialize number_text indent (JNum n) = number_text n"
| "serialize number_text indent (JStr s) = quote_json_string s"
| "serialize number_text indent (JArr xs) =
     (if xs = [] then ascii ''[]''
      else [0x5B, 0x0A] @ replicate (indent + 2) 0x20
           @ join ([0x2C, 0x0A] @ replicate (indent + 2) 0x20)
               (map (serialize number_text (indent + 2)) xs)
           @ [0x0A] @ replicate indent 0x20 @ [0x5D])"
| "serialize number_text indent (JObj kvs) =
     (if kvs = [] then ascii ''{}''
      else [0x7B, 0x0A] @ replicate (indent + 2) 0x20
           @ join ([0x2C, 0x0A] @ replicate (indent + 2) 0x20)
               (map (\<lambda>(k, v). quote_json_string k @ [0x3A, 0x20]
                                @ serialize number_text (indent + 2) v) kvs)
           @ [0x0A] @ replicate indent 0x20 @ [0x7D])"

definition JSON_stringify :: "(rat \<Rightarrow> jsstring) \<Rightarrow> json \<Rightarrow> jsstring" where
  "JSON_stringify number_text v = serialize number_text 0 v"

text \<open>
  The export puts the text into a file as UTF-8 and the import reads the file back as
  text. A string in which every surrogate is half of a pair comes back from that as it
  was:
\<close>

fun well_formed :: "jsstring \<Rightarrow> bool" where
  "well_formed [] = True"
| "well_formed [c] = (\<not> is_leading_surrogate c \<and> \<not> is_trailing_surrogate c)"
| "well_formed (c # d # cs) =
     (if is_leading_surrogate c \<and> is_trailing_surrogate d then well_formed cs
      else \<not> is_leading_surrogate c \<and> \<not> is_trailing_surrogate c \<and> well_formed (d # cs))"

subsection \<open>Parsing: \<^verbatim>\<open>JSON.parse(text)\<close>\<close>

text \<open>
  The parser reads the text one code unit at a time. Its state says what may come next
  and holds the enclosing arrays and objects that are still open, innermost first.
\<close>

type_synonym props = "(jsstring \<times> json) list"

datatype frame =
    ArrayFrame "json list"
  | ObjectFrame props jsstring

datatype string_role =
    KeyOf props "frame list"
  | ValueIn "frame list"

datatype pstate =
    Failed
  | ExpectValue "frame list"
  | ExpectFirstElement "frame list"
  | AfterElement "json list" "frame list"
  | ExpectFirstKey "frame list"
  | ExpectKey props "frame list"
  | ExpectColon props jsstring "frame list"
  | AfterMember props "frame list"
  | InString string_role jsstring
  | InEscape string_role jsstring
  | InHex string_role jsstring "nat list"
  | InLiteral jsstring json "frame list"
  | InNumber jsstring "frame list"
  | Done json

definition is_json_ws :: "code_unit \<Rightarrow> bool" where
  "is_json_ws c \<longleftrightarrow> c \<in> set [0x20, 0x09, 0x0A, 0x0D]"

definition is_digit :: "code_unit \<Rightarrow> bool" where
  "is_digit c \<longleftrightarrow> 0x30 \<le> c \<and> c \<le> 0x39"

text \<open>
  A member whose key the object already has replaces the value and keeps the place; a new
  key is added at the end.
\<close>

definition define_property :: "props \<Rightarrow> jsstring \<Rightarrow> json \<Rightarrow> props" where
  "define_property ps k v =
     (if k \<in> fst ` set ps then map (\<lambda>(k', v'). if k' = k then (k', v) else (k', v')) ps
      else ps @ [(k, v)])"

text \<open>
  The own properties of an object are enumerated with the array indices first (canonical
  decimal numerals up to 4294967294), in ascending order, then the other keys in order of
  creation.
\<close>

definition decimal_value :: "jsstring \<Rightarrow> nat" where
  "decimal_value s = foldl (\<lambda>n c. 10 * n + (unat c - 48)) 0 s"

definition is_array_index :: "jsstring \<Rightarrow> bool" where
  "is_array_index k \<longleftrightarrow>
     k \<noteq> [] \<and> list_all is_digit k \<and> (k = [0x30] \<or> take 1 k \<noteq> [0x30])
     \<and> decimal_value k \<le> 4294967294"

definition own_property_order :: "props \<Rightarrow> props" where
  "own_property_order ps =
     sort_key (\<lambda>p. decimal_value (fst p)) (filter (\<lambda>p. is_array_index (fst p)) ps)
     @ filter (\<lambda>p. \<not> is_array_index (fst p)) ps"

text \<open>A finished value goes to the innermost open structure, or ends the text.\<close>

fun deliver :: "json \<Rightarrow> frame list \<Rightarrow> pstate" where
  "deliver v [] = Done v"
| "deliver v (ArrayFrame xs # fs) = AfterElement (xs @ [v]) fs"
| "deliver v (ObjectFrame ps k # fs) = AfterMember (define_property ps k v) fs"

fun end_string :: "string_role \<Rightarrow> jsstring \<Rightarrow> pstate" where
  "end_string (KeyOf ps fs) s = ExpectColon ps s fs"
| "end_string (ValueIn fs) s = deliver (JStr s) fs"

text \<open>The first code unit of a value.\<close>

definition begin_value :: "frame list \<Rightarrow> code_unit \<Rightarrow> pstate" where
  "begin_value fs c =
     (if c = 0x22 then InString (ValueIn fs) []
      else if c = 0x5B then ExpectFirstElement fs
      else if c = 0x7B then ExpectFirstKey fs
      else if c = 0x74 then InLiteral (ascii ''rue'') (JBool True) fs
      else if c = 0x66 then InLiteral (ascii ''alse'') (JBool False) fs
      else if c = 0x6E then InLiteral (ascii ''ull'') JNull fs
      else if c = 0x2D \<or> is_digit c then InNumber [c] fs
      else Failed)"

text \<open>The code unit after a backslash, and the value of a hexadecimal digit.\<close>

definition escaped :: "code_unit \<Rightarrow> code_unit option" where
  "escaped c =
     map_of [(0x22, 0x22), (0x5C, 0x5C), (0x2F, 0x2F), (0x62, 0x08), (0x66, 0x0C),
             (0x6E, 0x0A), (0x72, 0x0D), (0x74, 0x09)] c"

definition hex_value :: "code_unit \<Rightarrow> nat option" where
  "hex_value c =
     (if 0x30 \<le> c \<and> c \<le> 0x39 then Some (unat c - 48)
      else if 0x61 \<le> c \<and> c \<le> 0x66 then Some (unat c - 87)
      else if 0x41 \<le> c \<and> c \<le> 0x46 then Some (unat c - 55)
      else None)"

text \<open>
  The grammar of a number literal: an optional minus, an integer part without a leading
  zero, an optional fraction, an optional exponent.
\<close>

definition is_number_char :: "code_unit \<Rightarrow> bool" where
  "is_number_char c \<longleftrightarrow> is_digit c \<or> c \<in> set [0x2B, 0x2D, 0x2E, 0x65, 0x45]"

definition valid_digits :: "jsstring \<Rightarrow> bool" where
  "valid_digits s \<longleftrightarrow> s \<noteq> [] \<and> list_all is_digit s"

definition valid_exponent :: "jsstring \<Rightarrow> bool" where
  "valid_exponent s =
     (case s of
        [] \<Rightarrow> True
      | e # r \<Rightarrow>
          (e = 0x65 \<or> e = 0x45)
          \<and> (case r of
                [] \<Rightarrow> False
              | sign # r' \<Rightarrow>
                  if sign = 0x2B \<or> sign = 0x2D then valid_digits r' else valid_digits r))"

definition valid_fraction :: "jsstring \<Rightarrow> bool" where
  "valid_fraction s =
     (case s of
        [] \<Rightarrow> True
      | c # r \<Rightarrow>
          if c = 0x2E
          then takeWhile is_digit r \<noteq> [] \<and> valid_exponent (dropWhile is_digit r)
          else valid_exponent s)"

definition valid_integer :: "jsstring \<Rightarrow> bool" where
  "valid_integer s =
     (case s of
        [] \<Rightarrow> False
      | c # r \<Rightarrow>
          if c = 0x30 then valid_fraction r
          else is_digit c \<and> valid_fraction (dropWhile is_digit r))"

definition valid_number :: "jsstring \<Rightarrow> bool" where
  "valid_number s =
     (case s of [] \<Rightarrow> False | c # r \<Rightarrow> if c = 0x2D then valid_integer r else valid_integer s)"

text \<open>What may follow a finished value: white space, a comma, or the closing bracket.\<close>

fun after_value :: "pstate \<Rightarrow> code_unit \<Rightarrow> pstate" where
  "after_value (Done v) c = (if is_json_ws c then Done v else Failed)"
| "after_value (AfterElement xs fs) c =
     (if is_json_ws c then AfterElement xs fs
      else if c = 0x2C then ExpectValue (ArrayFrame xs # fs)
      else if c = 0x5D then deliver (JArr xs) fs
      else Failed)"
| "after_value (AfterMember ps fs) c =
     (if is_json_ws c then AfterMember ps fs
      else if c = 0x2C then ExpectKey ps fs
      else if c = 0x7D then deliver (JObj (own_property_order ps)) fs
      else Failed)"
| "after_value st c = Failed"

text \<open>
  One code unit. A number literal ends at the first code unit that cannot belong to it;
  that code unit is then read as what follows the number.
\<close>

fun step :: "(jsstring \<Rightarrow> rat) \<Rightarrow> pstate \<Rightarrow> code_unit \<Rightarrow> pstate" where
  "step number_value Failed c = Failed"
| "step number_value (ExpectValue fs) c =
     (if is_json_ws c then ExpectValue fs else begin_value fs c)"
| "step number_value (ExpectFirstElement fs) c =
     (if is_json_ws c then ExpectFirstElement fs
      else if c = 0x5D then deliver (JArr []) fs
      else begin_value (ArrayFrame [] # fs) c)"
| "step number_value (ExpectFirstKey fs) c =
     (if is_json_ws c then ExpectFirstKey fs
      else if c = 0x22 then InString (KeyOf [] fs) []
      else if c = 0x7D then deliver (JObj []) fs
      else Failed)"
| "step number_value (ExpectKey ps fs) c =
     (if is_json_ws c then ExpectKey ps fs
      else if c = 0x22 then InString (KeyOf ps fs) []
      else Failed)"
| "step number_value (ExpectColon ps k fs) c =
     (if is_json_ws c then ExpectColon ps k fs
      else if c = 0x3A then ExpectValue (ObjectFrame ps k # fs)
      else Failed)"
| "step number_value (InString role s) c =
     (if c = 0x22 then end_string role s
      else if c = 0x5C then InEscape role s
      else if c < 0x20 then Failed
      else InString role (s @ [c]))"
| "step number_value (InEscape role s) c =
     (case escaped c of
        Some u \<Rightarrow> InString role (s @ [u])
      | None \<Rightarrow> if c = 0x75 then InHex role s [] else Failed)"
| "step number_value (InHex role s ds) c =
     (case hex_value c of
        None \<Rightarrow> Failed
      | Some d \<Rightarrow>
          if length ds = 3
          then InString role (s @ [of_nat (foldl (\<lambda>a x. 16 * a + x) 0 (ds @ [d]))])
          else InHex role s (ds @ [d]))"
| "step number_value (InLiteral rest v fs) c =
     (case rest of
        [] \<Rightarrow> Failed
      | r # rs \<Rightarrow>
          if c \<noteq> r then Failed
          else if rs = [] then deliver v fs
          else InLiteral rs v fs)"
| "step number_value (InNumber s fs) c =
     (if is_number_char c then InNumber (s @ [c]) fs
      else if valid_number s then after_value (deliver (JNum (number_value s)) fs) c
      else Failed)"
| "step number_value (Done v) c = after_value (Done v) c"
| "step number_value (AfterElement xs fs) c = after_value (AfterElement xs fs) c"
| "step number_value (AfterMember ps fs) c = after_value (AfterMember ps fs) c"

text \<open>
  The text is accepted when its end finds a finished value, or a number literal at the top
  level; every other text is a syntax error.
\<close>

definition JSON_parse :: "(jsstring \<Rightarrow> rat) \<Rightarrow> jsstring \<Rightarrow> exn + json" where
  "JSON_parse number_value text =
     (case foldl (step number_value) (ExpectValue []) text of
        Done v \<Rightarrow> Inr v
      | InNumber s [] \<Rightarrow> if valid_number s then Inr (JNum (number_value s)) else Inl SyntaxError
      | _ \<Rightarrow> Inl SyntaxError)"

text \<open>
  The values on which serializing and parsing are followed here: no number inside, and
  objects whose keys are pairwise different and no array indices.
\<close>

fun plain :: "json \<Rightarrow> bool" where
  "plain JNull = True"
| "plain (JBool b) = True"
| "plain (JNum n) = False"
| "plain (JStr s) = True"
| "plain (JArr xs) = list_all plain xs"
| "plain (JObj kvs) =
     (distinct (map fst kvs) \<and> list_all (\<lambda>(k, v). \<not> is_array_index k \<and> plain v) kvs)"

section \<open>Saving from the form (App.tsx, handleSaveItem)\<close>

text \<open>
  The state of \<^verbatim>\<open>App\<close> that the handler reads and writes, the storage state behind
  \<^verbatim>\<open>db\<close>, the records handed to \<^verbatim>\<open>db.save\<close> (in call order) and the number of alert
  boxes shown.
\<close>

record 'db app =
  items :: "PromptItem list"
  selectedItem :: "PromptItem option"
  editingItem :: "PromptItem option"
  storage :: 'db
  db_save_calls :: "json list"
  alerts :: nat

text \<open>
  \<open>now\<close> is the value of \<^verbatim>\<open>Date.now()\<close> at the call. With a record being edited the
  list is mapped, replacing the entries whose id is the submitted one; otherwise the
  submitted data gets the id \<^verbatim>\<open>Date.now().toString()\<close> and is put in front. The record is
  then handed to \<^verbatim>\<open>db.save\<close>; a rejection is caught and shown as an alert.
\<close>

definition handleSaveItem ::
  "('db \<Rightarrow> json \<Rightarrow> exn + 'db) \<Rightarrow> nat \<Rightarrow> PromptItem \<Rightarrow> 'db app \<Rightarrow> 'db app" where
  "handleSaveItem save now itemData st =
     (let (st1, itemData1) =
            (if editingItem st \<noteq> None
             then (st\<lparr>items := map (\<lambda>item. if id_of item = id_of itemData then itemData else item)
                                  (items st),
                      selectedItem :=
                        (if map_option id_of (selectedItem st) = Some (id_of itemData)
                         then Some itemData else selectedItem st)\<rparr>,
                   itemData)
             else (let newItem = itemData\<lparr>id_of := toString now\<rparr>
                   in (st\<lparr>items := newItem # items st\<rparr>, newItem)));
          st2 = st1\<lparr>editingItem := None\<rparr>;
          st3 = st2\<lparr>db_save_calls := db_save_calls st2 @ [toJS itemData1]\<rparr>
      in (case save (storage st3) (toJS itemData1) of
            Inl e \<Rightarrow> st3\<lparr>alerts := alerts st3 + 1\<rparr>
          | Inr d' \<Rightarrow> st3\<lparr>storage := d'\<rparr>))"

section \<open>Form validation (components/PromptFormModal.tsx, handleSubmit)\<close>

text \<open>The form holds a \<^verbatim>\<open>Partial<PromptItem>\<close>: every property may be undefined.\<close>

record PartialPromptItem =
  id_opt :: "jsstring option"
  title_opt :: "jsstring option"
  prompt_opt :: "jsstring option"
  negativePrompt_opt :: "jsstring option"
  category_opt :: "CategoryType option"
  outputMediaUrl_opt :: "jsstring option"
  inputMediaUrl_opt :: "jsstring option"
  modelUsed_opt :: "jsstring option"
  tags_opt :: "jsstring list option"
  isVideo_opt :: "bool option"

text \<open>Truthiness of a string that may be undefined.\<close>

definition truthy_string :: "jsstring option \<Rightarrow> bool" where
  "truthy_string v = (case v of None \<Rightarrow> False | Some s \<Rightarrow> s \<noteq> [])"

text \<open>The keys of \<^verbatim>\<open>newErrors\<close>, in the order the three checks set them.\<close>

definition newErrors :: "PartialPromptItem \<Rightarrow> jsstring list" where
  "newErrors formData =
     (if \<not> truthy_string (map_option trim (title_opt formData)) then [ascii ''title''] else [])
     @ (if \<not> truthy_string (map_option trim (prompt_opt formData)) then [ascii ''prompt'']
        else [])
     @ (if category_opt formData \<noteq> Some general \<and> \<not> truthy_string (outputMediaUrl_opt formData)
        then [ascii ''outputMediaUrl''] else [])"

text \<open>
  \<open>onSave\<close> is the callback the form was given; it acts on the state \<open>w\<close> of its owner
  and may reject. The outcome lists the arguments \<open>onSave\<close> was called with.
\<close>

record 'w submit_outcome =
  owner_state :: 'w
  onSave_calls :: "PartialPromptItem list"
  setErrors_arg :: "jsstring list option"
  isSaving :: bool
  onClose_called :: bool

definition handleSubmit ::
  "(PartialPromptItem \<Rightarrow> 'w \<Rightarrow> exn + 'w) \<Rightarrow> PartialPromptItem \<Rightarrow> 'w \<Rightarrow> 'w submit_outcome" where
  "handleSubmit onSave formData w =
     (if length (newErrors formData) > 0
      then \<lparr>owner_state = w, onSave_calls = [], setErrors_arg = Some (newErrors formData),
            isSaving = False, onClose_called = False\<rparr>
      else (case onSave formData w of
              Inl e \<Rightarrow>
                \<lparr>owner_state = w, onSave_calls = [formData], setErrors_arg = None,
                 isSaving = True, onClose_called = False\<rparr>
            | Inr w' \<Rightarrow>
                \<lparr>owner_state = w', onSave_calls = [formData], setErrors_arg = None,
                 isSaving = False, onClose_called = True\<rparr>))"

section \<open>Prompt refinement (services/geminiService.ts)\<close>

record GoogleGenAI =
  apiKey :: jsstring

definition getAiClient :: "jsstring option \<Rightarrow> GoogleGenAI option" where
  "getAiClient env_API_KEY =
     (case env_API_KEY of
        None \<Rightarrow> None
      | Some k \<Rightarrow> if k = [] then None else Some \<lparr>apiKey = k\<rparr>)"

record generate_request =
  model :: jsstring
  contents :: jsstring

definition request_contents :: "jsstring \<Rightarrow> jsstring" where
  "request_contents originalPrompt =
     ascii ''You are an expert AI Prompt Engineer for models like Midjourney, Stable Diffusion, and Sora.''
     @ [0x0A] @ ascii ''      '' @ [0x0A]
     @ ascii ''      Please refine and enhance the following prompt to make it more descriptive, artistic, and likely to generate a high-quality result. ''
     @ [0x0A]
     @ ascii ''      Keep the core meaning but add necessary details about lighting, style, camera angles, and atmosphere.''
     @ [0x0A] @ ascii ''      '' @ [0x0A]
     @ ascii ''      Original Prompt: '' @ [0x22] @ originalPrompt @ [0x22]
     @ [0x0A] @ ascii ''      '' @ [0x0A]
     @ ascii ''      Return ONLY the refined prompt text. Do not add any conversational filler.''"

text \<open>\<^verbatim>\<open>try { body } catch (error) { handler }\<close> on results.\<close>

definition try_catch :: "exn + 'a \<Rightarrow> (exn \<Rightarrow> exn + 'a) \<Rightarrow> exn + 'a" where
  "try_catch body handler = (case body of Inl e \<Rightarrow> handler e | Inr v \<Rightarrow> Inr v)"

text \<open>
  \<open>generateContent\<close> is the remote call: it rejects with an exception or yields the
  response, of which only the (possibly undefined) text is read. The result is what the
  returned promise settles with: \<open>Inl\<close> a rejection, \<open>Inr\<close> the string it resolves to.
\<close>

definition refinePrompt ::
  "jsstring option \<Rightarrow> (GoogleGenAI \<Rightarrow> generate_request \<Rightarrow> exn + jsstring option) \<Rightarrow> jsstring
     \<Rightarrow> exn + jsstring" where
  "refinePrompt env_API_KEY generateContent originalPrompt =
     (case getAiClient env_API_KEY of
        None \<Rightarrow> Inr (ascii ''API Key missing. Unable to refine prompt.'')
      | Some ai \<Rightarrow>
          try_catch
            (case generateContent ai
                    \<lparr>model = ascii ''gemini-2.5-flash'',
                     contents = request_contents originalPrompt\<rparr> of
               Inl e \<Rightarrow> Inl e
             | Inr response_text \<Rightarrow>
                 Inr (case response_text of
                        None \<Rightarrow> ascii ''Could not generate response.''
                      | Some t \<Rightarrow> if t = [] then ascii ''Could not generate response.'' else t))
            (\<lambda>e. Inr (ascii ''Error communicating with AI service.'')))"

section \<open>Sample data\<close>

text \<open>
  Three records as the form produces them: a general prompt without media, an image prompt
  with its output image, and a second general prompt.
\<close>

definition sample_general :: PromptItem where
  "sample_general =
     \<lparr>id_of = ascii ''1730000000000'', title = ascii ''Style words'',
      prompt = ascii ''cinematic, 8k'', negativePrompt = None, category = general,
      outputMediaUrl = Some [], inputMediaUrl = None, modelUsed = Some [],
      tags = [ascii ''Cats'', ascii ''style''], isVideo = Some False\<rparr>"

definition sample_image :: PromptItem where
  "sample_image =
     \<lparr>id_of = ascii ''1730000000001'', title = ascii ''Dream city'',
      prompt = ascii ''a city in the clouds'', negativePrompt = None, category = txt2img,
      outputMediaUrl = Some (ascii ''data:image/png;base64,AAAA''),
      inputMediaUrl = None, modelUsed = Some (ascii ''MJ v6''), tags = [],
      isVideo = Some False\<rparr>"


text \<open>
  The form of the specification's example: category \<^verbatim>\<open>img2img\<close>, title and prompt filled
  in, no output media. The second form has a title of two no-break spaces.
\<close>

definition sample_form :: PartialPromptItem where
  "sample_form =
     \<lparr>id_opt = Some (ascii ''1730000000003''), title_opt = Some (ascii ''Repaint''),
      prompt_opt = Some (ascii ''oil painting''), negativePrompt_opt = None,
      category_opt = Some img2img, outputMediaUrl_opt = Some [],
      inputMediaUrl_opt = None, modelUsed_opt = Some [], tags_opt = Some [],
      isVideo_opt = Some False\<rparr>"

definition sample_form_blank_title :: PartialPromptItem where
  "sample_form_blank_title =
     \<lparr>id_opt = Some (ascii ''1730000000004''), title_opt = Some [0x00A0, 0x00A0],
      prompt_opt = Some (ascii ''oil painting''), negativePrompt_opt = None,
      category_opt = Some general, outputMediaUrl_opt = Some [],
      inputMediaUrl_opt = None, modelUsed_opt = Some [], tags_opt = Some [],
      isVideo_opt = Some False\<rparr>"

text \<open>Elements of import payloads, as \<^verbatim>\<open>JSON.parse\<close> yields them.\<close>

definition element_valid :: json where
  "element_valid =
     JObj [(ascii ''id'', JStr (ascii ''1'')), (ascii ''category'', JStr (ascii ''general'')),
           (ascii ''prompt'', JStr (ascii ''x''))]"

definition element_id_only :: json where
  "element_id_only = JObj [(ascii ''id'', JStr (ascii ''2''))]"

definition element_video :: json where
  "element_video =
     JObj [(ascii ''id'', JStr (ascii ''1'')), (ascii ''category'', JStr (ascii ''img2vid'')),
           (ascii ''prompt'', JStr (ascii ''x''))]"

definition element_unknown_category :: json where
  "element_unknown_category =
     JObj [(ascii ''id'', JStr (ascii ''1'')), (ascii ''category'', JStr (ascii ''bogus'')),
           (ascii ''prompt'', JStr (ascii ''x''))]"

definition element_numeric_id :: json where
  "element_numeric_id =
     JObj [(ascii ''id'', JNum 7), (ascii ''category'', JStr (ascii ''bogus'')),
           (ascii ''prompt'', JStr (ascii ''x''))]"

definition element_empty_prompt :: json where
  "element_empty_prompt =
     JObj [(ascii ''id'', JStr (ascii ''3'')), (ascii ''category'', JStr (ascii ''general'')),
           (ascii ''prompt'', JStr [])]"

section \<open>Facts about strings\<close>

lemma of_char_code_unit_eq_iff: "(of_char c :: code_unit) = of_char d \<longleftrightarrow> c = d"
proof
  assume a: "(of_char c :: code_unit) = of_char d"
  have "(of_nat (of_char c) :: code_unit) = of_nat (of_char d)"
    using a by (simp add: of_nat_of_char)
  then have "unat (of_nat (of_char c) :: code_unit) = unat (of_nat (of_char d) :: code_unit)"
    by simp
  moreover have "(of_char c :: nat) < 65536"
    by (rule less_trans [OF nat_of_char_less_256]) simp
  moreover have "(of_char d :: nat) < 65536"
    by (rule less_trans [OF nat_of_char_less_256]) simp
  ultimately have "(of_char c :: nat) = of_char d"
    by (simp add: unat_of_nat take_bit_nat_eq_self)
  then show "c = d" by simp
qed simp

text \<open>Different literals are different strings.\<close>

lemma ascii_eq_iff [simp]: "ascii s = ascii t \<longleftrightarrow> s = t"
  unfolding ascii_def by (rule inj_map_eq_map) (simp add: inj_def of_char_code_unit_eq_iff)

lemma ascii_eq_Nil_iff [simp]: "ascii s = [] \<longleftrightarrow> s = []"
  by (simp add: ascii_def)

lemma Nil_eq_ascii_iff [simp]: "[] = ascii s \<longleftrightarrow> s = []"
  by (auto simp: ascii_def)

section \<open>Properties of the import\<close>

subsection \<open>The loop\<close>

lemma item_guard_importable: "item \<noteq> JNull \<Longrightarrow> item_guard item = Inr (importable item)"
  by (cases item) (auto simp: item_guard_def importable_def has_truthy_def)

lemma item_guard_null: "item_guard JNull = Inl TypeError"
  by (simp add: item_guard_def)

text \<open>
  A loop that ends normally has handed exactly the importable elements to \<^verbatim>\<open>db.save\<close>, in
  payload order, and counted them.
\<close>

lemma import_loop_Inr:
  "import_loop save xs d calls n = (d', calls', Inr m) \<Longrightarrow>
     calls' = calls @ filter importable xs \<and> m = n + length (filter importable xs)"
proof (induction xs arbitrary: d calls n)
  case Nil
  then show ?case by simp
next
  case (Cons x xs)
  show ?case
  proof (cases "x = JNull")
    case True
    with Cons.prems show ?thesis by (simp add: item_guard_null)
  next
    case False
    note g = item_guard_importable [OF False]
    show ?thesis
    proof (cases "importable x")
      case True
      with Cons.prems g obtain d1 where
        r: "import_loop save xs d1 (calls @ [x]) (n + 1) = (d', calls', Inr m)"
        by (auto split: sum.splits)
      from Cons.IH [OF r] True show ?thesis by simp
    next
      case nimp: False
      with Cons.prems g have "import_loop save xs d calls n = (d', calls', Inr m)" by simp
      from Cons.IH [OF this] nimp show ?thesis by simp
    qed
  qed
qed

text \<open>With no \<^verbatim>\<open>null\<close> element and a \<^verbatim>\<open>save\<close> that never rejects, the loop ends normally.\<close>

lemma import_loop_total:
  "JNull \<notin> set xs \<Longrightarrow>
   import_loop (\<lambda>d x. Inr (f d x)) xs d calls n =
     (foldl f d (filter importable xs), calls @ filter importable xs,
      Inr (n + length (filter importable xs)))"
proof (induction xs arbitrary: d calls n)
  case Nil
  then show ?case by simp
next
  case (Cons x xs)
  then have "x \<noteq> JNull" by auto
  from item_guard_importable [OF this] Cons show ?case by simp
qed

lemma import_parsed_success:
  assumes "map_option msg_type (statusMsg (import_parsed save (JArr xs) d)) = Some success"
  shows "\<exists>d'. import_parsed save (JArr xs) d =
           \<lparr>db = d', save_calls = filter importable xs,
            statusMsg =
              Some \<lparr>msg_type = success, msg_text = Restored (length (filter importable xs))\<rparr>,
            onDataUpdate_called = True\<rparr>"
proof -
  obtain d' calls r where l: "import_loop save xs d [] 0 = (d', calls, r)"
    by (cases "import_loop save xs d [] 0") auto
  show ?thesis
  proof (cases r)
    case (Inl e)
    with l assms show ?thesis by (simp add: import_parsed_def import_failed_def)
  next
    case (Inr n)
    with l import_loop_Inr [of save xs d "[]" 0 d' calls n] show ?thesis
      by (simp add: import_parsed_def)
  qed
qed

text \<open>
  A \<^verbatim>\<open>null\<close> element ends the import with the error message; what was saved before it
  stays saved, the elements after it are not looked at.
\<close>

lemma import_null_element_aborts:
  "import_parsed db_save (JArr [element_valid, JNull, element_video]) []
   = \<lparr>db = [element_valid], save_calls = [element_valid],
      statusMsg = Some \<lparr>msg_type = error, msg_text = ImportFailed\<rparr>,
      onDataUpdate_called = False\<rparr>"
  by (simp add: import_parsed_def import_failed_def item_guard_def db_save_def upsert_def
      element_valid_def)

subsection \<open>Which elements are accepted\<close>

text \<open>
  Claim C1, as amended. In every import that runs to completion (it ends with the success
  message: no element was \<^verbatim>\<open>null\<close> and no \<^verbatim>\<open>db.save\<close> call rejected), the records handed
  to \<^verbatim>\<open>db.save\<close> are exactly the elements whose \<^verbatim>\<open>id\<close>, \<^verbatim>\<open>category\<close> and \<^verbatim>\<open>prompt\<close>
  properties are all truthy, in payload order; every other element is skipped. The
  category is tested for truthiness only, not for being one of the five tags.
\<close>

theorem import_accepts_iff_truthy:
  assumes "map_option msg_type (statusMsg (import_parsed save (JArr payload) d)) = Some success"
  shows "save_calls (import_parsed save (JArr payload) d) = filter importable payload
         \<and> (\<forall>item \<in> set payload.
               item \<in> set (save_calls (import_parsed save (JArr payload) d))
                 \<longleftrightarrow> importable item)"
proof -
  from import_parsed_success [OF assms] obtain d' where
    "import_parsed save (JArr payload) d =
       \<lparr>db = d', save_calls = filter importable payload,
        statusMsg =
          Some \<lparr>msg_type = success, msg_text = Restored (length (filter importable payload))\<rparr>,
        onDataUpdate_called = True\<rparr>" ..
  then show ?thesis by simp
qed

text \<open>
  An import of four elements that completes: the record with a numeric id and an unknown
  category is saved; the record with an empty prompt, the record with an id only and the
  bare string are skipped.
\<close>

theorem import_accepts_iff_truthy_witness:
  "map_option msg_type (statusMsg (import_parsed db_save
       (JArr [element_numeric_id, element_empty_prompt, element_id_only, JStr (ascii ''text'')])
       []))
     = Some success
   \<and> save_calls (import_parsed db_save
       (JArr [element_numeric_id, element_empty_prompt, element_id_only, JStr (ascii ''text'')])
       [])
     = [element_numeric_id]"
proof -
  have h: "map_option msg_type (statusMsg (import_parsed db_save
       (JArr [element_numeric_id, element_empty_prompt, element_id_only, JStr (ascii ''text'')])
       []))
     = Some success"
    by (simp add: import_parsed_def item_guard_def db_save_def upsert_def
        element_numeric_id_def element_empty_prompt_def element_id_only_def)
  from import_accepts_iff_truthy [OF h] h show ?thesis
    by (simp add: importable_def has_truthy_def
        element_numeric_id_def element_empty_prompt_def element_id_only_def)
qed

text \<open>
  The claim as the specification words it fails: an element whose category is none of the
  five tags is handed to \<^verbatim>\<open>db.save\<close>.
\<close>

theorem import_unrecognized_category_counterexample:
  "save_calls (import_parsed db_save (JArr [element_unknown_category]) [])
     = [element_unknown_category]
   \<and> \<not> spec_accepts element_unknown_category"
  by (simp add: import_parsed_def item_guard_def db_save_def upsert_def spec_accepts_def
      spec_recognized_category_def element_unknown_category_def)

subsection \<open>What an import reports\<close>

text \<open>
  Claim C2, as amended. The import reports the number of accepted records only. On the
  payload of the two elements \<^verbatim>\<open>{id:"1",category:"general",prompt:"x"}\<close> and \<^verbatim>\<open>{id:"2"}\<close>,
  when \<^verbatim>\<open>db.save\<close> takes the first, exactly that record is saved, the second is skipped,
  and the import ends with the success message for one restored record, without an
  exception.
\<close>

theorem import_two_element_payload:
  assumes "save d element_valid = Inr d'"
  shows "import_parsed save (JArr [element_valid, element_id_only]) d
     = \<lparr>db = d', save_calls = [element_valid],
        statusMsg = Some \<lparr>msg_type = success, msg_text = Restored 1\<rparr>,
        onDataUpdate_called = True\<rparr>"
  using assms
  by (simp add: import_parsed_def item_guard_def element_valid_def element_id_only_def)

text \<open>The same on the modelled store, starting empty.\<close>

theorem import_two_element_payload_witness:
  "db_save [] element_valid = Inr [element_valid]
   \<and> import_parsed db_save (JArr [element_valid, element_id_only]) []
     = \<lparr>db = [element_valid], save_calls = [element_valid],
        statusMsg = Some \<lparr>msg_type = success, msg_text = Restored 1\<rparr>,
        onDataUpdate_called = True\<rparr>"
proof -
  have h: "db_save [] element_valid = Inr [element_valid]"
    by (simp add: db_save_def upsert_def)
  from import_two_element_payload [of db_save "[]", OF h] h show ?thesis by simp
qed

text \<open>
  No rejected count is reported: the payload with the rejected second element and the
  payload without it end in the same outcome, message included, although one has a
  rejected element and the other has none.
\<close>

theorem import_reports_no_rejected_count_counterexample:
  "import_parsed db_save (JArr [element_valid, element_id_only]) []
   = import_parsed db_save (JArr [element_valid]) []
   \<and> spec_rejected [element_valid, element_id_only] = 1
   \<and> spec_rejected [element_valid] = 0"
  by (simp add: import_parsed_def item_guard_def db_save_def upsert_def spec_rejected_def
      importable_def has_truthy_def element_valid_def element_id_only_def)

subsection \<open>A payload that is no array\<close>

text \<open>
  Claim C4. If the file's text does not parse, or parses to something that is no array,
  the import fails as a whole: the storage state is untouched, \<^verbatim>\<open>db.save\<close> is never
  called, the error message is shown and \<^verbatim>\<open>onDataUpdate\<close> is not called.
\<close>

theorem import_not_array_fails:
  assumes "case parse jsonContent of Inl e \<Rightarrow> True | Inr parsedData \<Rightarrow> \<not> isArray parsedData"
  shows "handleFileChange parse save jsonContent d =
           \<lparr>db = d, save_calls = [],
            statusMsg = Some \<lparr>msg_type = error, msg_text = ImportFailed\<rparr>,
            onDataUpdate_called = False\<rparr>"
  using assms
  by (simp add: handleFileChange_def import_parsed_def import_failed_def split: sum.splits)

text \<open>
  A file that holds a single valid record, not wrapped in an array (the file's content is
  taken to be its parsed value).
\<close>

theorem import_not_array_fails_witness:
  "handleFileChange Inr db_save element_valid []
      = \<lparr>db = [], save_calls = [],
         statusMsg = Some \<lparr>msg_type = error, msg_text = ImportFailed\<rparr>,
         onDataUpdate_called = False\<rparr>"
proof -
  have h: "case Inr element_valid
      of Inl (e :: exn) \<Rightarrow> True | Inr parsedData \<Rightarrow> \<not> isArray parsedData"
    by (simp add: element_valid_def)
  from import_not_array_fails [of Inr, OF h, of db_save "[]"] show ?thesis .
qed

subsection \<open>Media is not required by the import\<close>

text \<open>
  Claim C10. The payload whose only element is \<^verbatim>\<open>{id:"1",category:"img2vid",prompt:"x"}\<close>,
  a record of a category other than \<^verbatim>\<open>general\<close> with no \<^verbatim>\<open>outputMediaUrl\<close>, is handed to
  \<^verbatim>\<open>db.save\<close> whatever the storage is, and is in the modelled store afterwards.
\<close>

theorem import_accepts_video_without_media:
  "save_calls (import_parsed save (JArr [element_video]) d) = [element_video]
   \<and> get_prop element_video (ascii ''category'') = Inr (Some (JStr (category_string img2vid)))
   \<and> get_prop element_video (ascii ''outputMediaUrl'') = Inr None
   \<and> db (import_parsed db_save (JArr [element_video]) []) = [element_video]"
  by (simp add: import_parsed_def item_guard_def db_save_def upsert_def import_failed_def
      element_video_def split: sum.splits)

section \<open>Serializing and parsing\<close>

subsection \<open>Strings\<close>

lemma foldl_step_ws:
  assumes "\<And>c. is_json_ws c \<Longrightarrow> step nv st c = st" and "list_all is_json_ws w"
  shows "foldl (step nv) st w = st"
  using assms(2) by (induction w) (simp_all add: assms(1))

lemma is_json_ws_indent: "list_all is_json_ws (0x0A # replicate n 0x20)"
  by (simp add: is_json_ws_def list_all_iff)

lemma hex_digit_values:
  "hex_digit 0 = 0x30" "hex_digit 1 = 0x31" "hex_digit 2 = 0x32" "hex_digit 3 = 0x33"
  "hex_digit 4 = 0x34" "hex_digit 5 = 0x35" "hex_digit 6 = 0x36" "hex_digit 7 = 0x37"
  "hex_digit 8 = 0x38" "hex_digit 9 = 0x39" "hex_digit 10 = 0x61" "hex_digit 11 = 0x62"
  "hex_digit 12 = 0x63" "hex_digit 13 = 0x64" "hex_digit 14 = 0x65" "hex_digit 15 = 0x66"
  "hex_digit (Suc 0) = 0x31"
  by (simp_all add: hex_digit_def ascii_def)

lemma hex_value_hex_digit:
  assumes "d < 16"
  shows "hex_value (hex_digit d) = Some d"
proof -
  from assms have "d = 0 \<or> d = 1 \<or> d = 2 \<or> d = 3 \<or> d = 4 \<or> d = 5 \<or> d = 6 \<or> d = 7
      \<or> d = 8 \<or> d = 9 \<or> d = 10 \<or> d = 11 \<or> d = 12 \<or> d = 13 \<or> d = 14 \<or> d = 15"
    by presburger
  then show ?thesis
    by (elim disjE) (simp_all add: hex_digit_values hex_value_def)
qed

lemma hex_digits_nat:
  "16 * (16 * (16 * (n div 4096) + n div 256 mod 16) + n div 16 mod 16) + n mod 16 = (n::nat)"
proof -
  have a: "n div 256 = n div 16 div 16"
    using div_mult2_eq [of n 16 16] by simp
  have b: "n div 4096 = n div 256 div 16"
    using div_mult2_eq [of n 256 16] by simp
  have "16 * (n div 4096) + n div 256 mod 16 = n div 256"
    unfolding b by simp
  then have "16 * (16 * (n div 4096) + n div 256 mod 16) + n div 16 mod 16 = n div 16"
    unfolding a by simp
  then show ?thesis by simp
qed

lemma unat_code_unit_div_4096: "unat (c :: code_unit) div 4096 < 16"
proof -
  have "unat c < 2 ^ LENGTH(16)" by (rule unsigned_less)
  then show ?thesis by simp
qed

lemma read_unicode_escape:
  "foldl (step nv) (InString role s) (unicode_escape c) = InString role (s @ [c])"
proof -
  have e: "escaped 0x75 = None" by (simp add: escaped_def)
  have d: "unat c div 4096 < 16" "unat c div 256 mod 16 < 16" "unat c div 16 mod 16 < 16"
    "unat c mod 16 < 16"
    by (simp_all add: unat_code_unit_div_4096)
  have "(4096 * word_of_nat (unat c div 4096) + 256 * word_of_nat (unat c div 256 mod 16)
          + 16 * word_of_nat (unat c div 16 mod 16) + word_of_nat (unat c mod 16) :: code_unit)
        = word_of_nat (16 * (16 * (16 * (unat c div 4096) + unat c div 256 mod 16)
            + unat c div 16 mod 16) + unat c mod 16)"
    by simp
  also have "\<dots> = c"
    by (simp only: hex_digits_nat) simp
  finally have v: "(4096 * word_of_nat (unat c div 4096)
          + 256 * word_of_nat (unat c div 256 mod 16)
          + 16 * word_of_nat (unat c div 16 mod 16) + word_of_nat (unat c mod 16) :: code_unit)
        = c" .
  show ?thesis
    by (simp add: unicode_escape_def e hex_value_hex_digit d v)
qed

lemma read_quote_unit:
  "foldl (step nv) (InString role s) (quote_unit c) = InString role (s @ [c])"
proof (cases "c < 0x20 \<and> c \<notin> {0x08, 0x09, 0x0A, 0x0C, 0x0D}")
  case True
  then have "quote_unit c = unicode_escape c"
    by (auto simp: quote_unit_def)
  then show ?thesis by (simp add: read_unicode_escape)
next
  case False
  then show ?thesis
    by (auto simp: quote_unit_def escaped_def)
qed

lemma read_surrogate:
  assumes "is_leading_surrogate c \<or> is_trailing_surrogate c"
  shows "step nv (InString role s) c = InString role (s @ [c])"
proof -
  from assms have "55296 \<le> unat c"
    by (auto simp: is_leading_surrogate_def is_trailing_surrogate_def word_le_nat_alt)
  then have "c \<noteq> 0x22" "c \<noteq> 0x5C" "\<not> c < 0x20"
    by (auto simp: word_less_nat_alt)
  then show ?thesis by simp
qed

lemma read_quote_units:
  "foldl (step nv) (InString role s) (quote_units u) = InString role (s @ u)"
proof (induction u arbitrary: s rule: quote_units.induct)
  case 1
  then show ?case by simp
next
  case (2 c)
  then show ?case by (simp add: read_unicode_escape read_quote_unit)
next
  case (3 c d cs)
  show ?case
  proof (cases "is_leading_surrogate c \<and> is_trailing_surrogate d")
    case True
    have c: "step nv (InString role s) c = InString role (s @ [c])"
      by (rule read_surrogate) (simp add: True)
    have d: "step nv (InString role (s @ [c])) d = InString role ((s @ [c]) @ [d])"
      by (rule read_surrogate) (simp add: True)
    from True have q: "quote_units (c # d # cs) = c # d # quote_units cs" by simp
    from True "3.IH"(1) [of "(s @ [c]) @ [d]"] show ?thesis
      unfolding q by (simp only: foldl.simps c d) simp
  next
    case False
    show ?thesis
    proof (cases "is_leading_surrogate c \<or> is_trailing_surrogate c")
      case True
      with False have q: "quote_units (c # d # cs) = unicode_escape c @ quote_units (d # cs)"
        by auto
      from False True "3.IH"(2) [of "s @ [c]"] show ?thesis
        unfolding q by (simp only: foldl_append read_unicode_escape) simp
    next
      case nosur: False
      with False have q: "quote_units (c # d # cs) = quote_unit c @ quote_units (d # cs)"
        by auto
      from False nosur "3.IH"(3) [of "s @ [c]"] show ?thesis
        unfolding q by (simp only: foldl_append read_quote_unit) simp
    qed
  qed
qed

lemma read_quoted:
  "foldl (step nv) (InString role []) (quote_units u @ [0x22]) = end_string role u"
  by (simp add: read_quote_units)

subsection \<open>Arrays and objects\<close>

lemma is_json_ws_simps [simp]: "is_json_ws 0x20" "is_json_ws 0x0A"
  "\<not> is_json_ws 0x22" "\<not> is_json_ws 0x2C" "\<not> is_json_ws 0x3A" "\<not> is_json_ws 0x5B"
  "\<not> is_json_ws 0x5D" "\<not> is_json_ws 0x7B" "\<not> is_json_ws 0x7D"
  "\<not> is_json_ws 0x6E" "\<not> is_json_ws 0x74" "\<not> is_json_ws 0x66"
  by (simp_all add: is_json_ws_def)

lemma skip_spaces:
  "foldl (step nv) (ExpectValue fs) (replicate n 0x20) = ExpectValue fs"
  "foldl (step nv) (ExpectFirstElement fs) (replicate n 0x20) = ExpectFirstElement fs"
  "foldl (step nv) (AfterElement xs fs) (replicate n 0x20) = AfterElement xs fs"
  "foldl (step nv) (ExpectFirstKey fs) (replicate n 0x20) = ExpectFirstKey fs"
  "foldl (step nv) (ExpectKey ps fs) (replicate n 0x20) = ExpectKey ps fs"
  "foldl (step nv) (AfterMember ps fs) (replicate n 0x20) = AfterMember ps fs"
  by (rule foldl_step_ws, simp, simp add: list_all_iff)+

lemma serialize_head:
  assumes "plain v"
  shows "\<exists>c r. serialize nt i v = c # r \<and> \<not> is_json_ws c \<and> c \<noteq> 0x5D"
proof (cases v)
  case JNull
  then show ?thesis by (simp add: ascii_def)
next
  case (JBool b)
  then show ?thesis by (simp add: ascii_def)
next
  case (JNum n)
  with assms show ?thesis by simp
next
  case (JStr s)
  then show ?thesis by (simp add: quote_json_string_def)
next
  case (JArr xs)
  then show ?thesis by (simp add: ascii_def)
next
  case (JObj kvs)
  then show ?thesis by (simp add: ascii_def)
qed

lemma read_first_element:
  assumes "plain v"
    and "foldl (step nv) (ExpectValue (ArrayFrame [] # fs)) (serialize nt i v)
           = deliver v (ArrayFrame [] # fs)"
  shows "foldl (step nv) (ExpectFirstElement fs) (serialize nt i v) = AfterElement [v] fs"
proof -
  from serialize_head [OF assms(1)] obtain c r where
    s: "serialize nt i v = c # r" and c: "\<not> is_json_ws c" "c \<noteq> 0x5D" by blast
  have "step nv (ExpectFirstElement fs) c = step nv (ExpectValue (ArrayFrame [] # fs)) c"
    using c by simp
  with assms(2) show ?thesis unfolding s by simp
qed

lemma read_elements:
  assumes sep: "\<And>acc. foldl (step nv) (AfterElement acc fs) sep
                  = ExpectValue (ArrayFrame acc # fs)"
    and "\<And>y fs. y \<in> set ys \<Longrightarrow>
             foldl (step nv) (ExpectValue fs) (serialize nt k y) = deliver y fs"
  shows "foldl (step nv) (AfterElement acc fs)
           (concat (map ((@) sep) (map (serialize nt k) ys)))
         = AfterElement (acc @ ys) fs"
  using assms(2)
proof (induction ys arbitrary: acc)
  case Nil
  then show ?case by simp
next
  case (Cons y ys)
  have y: "foldl (step nv) (ExpectValue (ArrayFrame acc # fs)) (serialize nt k y)
      = AfterElement (acc @ [y]) fs"
    using Cons.prems [of y "ArrayFrame acc # fs"] by simp
  have "foldl (step nv) (AfterElement (acc @ [y]) fs)
           (concat (map ((@) sep) (map (serialize nt k) ys)))
         = AfterElement ((acc @ [y]) @ ys) fs"
    by (rule Cons.IH) (simp add: Cons.prems)
  then show ?case
    by (simp add: sep y)
qed

lemma read_member:
  assumes "\<And>fs. foldl (step nv) (ExpectValue fs) (serialize nt i v) = deliver v fs"
  shows "foldl (step nv) (InString (KeyOf ps fs) [])
           (quote_units k @ [0x22] @ [0x3A, 0x20] @ serialize nt i v)
         = AfterMember (define_property ps k v) fs"
  by (simp add: read_quote_units assms)

lemma read_members:
  assumes sep: "\<And>ps. foldl (step nv) (AfterMember ps fs) sep = ExpectKey ps fs"
    and "\<And>kv fs. kv \<in> set kvs \<Longrightarrow>
             foldl (step nv) (ExpectValue fs) (serialize nt i (snd kv)) = deliver (snd kv) fs"
  shows "foldl (step nv) (AfterMember ps fs)
           (concat (map ((@) sep)
              (map (\<lambda>(k, v). [0x22] @ quote_units k @ [0x22] @ [0x3A, 0x20] @ serialize nt i v)
                 kvs)))
         = AfterMember (foldl (\<lambda>ps (k, v). define_property ps k v) ps kvs) fs"
  using assms(2)
proof (induction kvs arbitrary: ps)
  case Nil
  then show ?case by simp
next
  case (Cons kv kvs)
  obtain k v where kv: "kv = (k, v)" by (cases kv)
  define member where "member = quote_units k @ [0x22] @ [0x3A, 0x20] @ serialize nt i v"
  define others where "others = concat (map ((@) sep)
              (map (\<lambda>(k, v). [0x22] @ quote_units k @ [0x22] @ [0x3A, 0x20] @ serialize nt i v)
                 kvs))"
  have m: "foldl (step nv) (InString (KeyOf ps fs) []) member
         = AfterMember (define_property ps k v) fs"
    unfolding member_def
    by (rule read_member) (use Cons.prems [of kv] kv in simp)
  have r: "foldl (step nv) (AfterMember (define_property ps k v) fs) others
         = AfterMember (foldl (\<lambda>ps (k, v). define_property ps k v) (define_property ps k v) kvs)
             fs"
    unfolding others_def
    by (rule Cons.IH) (simp add: Cons.prems)
  have q: "foldl (step nv) (ExpectKey ps fs) [0x22] = InString (KeyOf ps fs) []"
    by simp
  have "concat (map ((@) sep)
              (map (\<lambda>(k, v). [0x22] @ quote_units k @ [0x22] @ [0x3A, 0x20] @ serialize nt i v)
                 (kv # kvs)))
        = sep @ [0x22] @ member @ others"
    by (simp add: kv member_def others_def)
  then show ?case
    by (simp only: foldl_append sep q m r) (simp add: kv)
qed

lemma define_property_fresh: "k \<notin> fst ` set ps \<Longrightarrow> define_property ps k v = ps @ [(k, v)]"
  by (simp add: define_property_def)

lemma define_properties_distinct:
  "distinct (map fst (ps @ kvs)) \<Longrightarrow>
   foldl (\<lambda>ps (k, v). define_property ps k v) ps kvs = ps @ kvs"
proof (induction kvs arbitrary: ps)
  case Nil
  then show ?case by simp
next
  case (Cons kv kvs)
  obtain k v where kv: "kv = (k, v)" by (cases kv)
  from Cons.prems kv have f: "k \<notin> fst ` set ps" by auto
  from Cons.prems have "distinct (map fst ((ps @ [kv]) @ kvs))" by simp
  from Cons.IH [OF this] show ?case
    by (simp add: kv define_property_fresh [OF f])
qed

lemma own_property_order_plain:
  assumes "list_all (\<lambda>(k, v). \<not> is_array_index k \<and> P v) kvs"
  shows "own_property_order kvs = kvs"
proof -
  from assms have a: "\<forall>p \<in> set kvs. \<not> is_array_index (fst p)"
    by (auto simp: list_all_iff)
  then have "filter (\<lambda>p. is_array_index (fst p)) kvs = []"
    by (simp add: filter_empty_conv)
  moreover from a have "filter (\<lambda>p. \<not> is_array_index (fst p)) kvs = kvs"
    by (simp add: filter_id_conv)
  ultimately show ?thesis by (simp add: own_property_order_def)
qed

lemma separator_in_array:
  "foldl (step nv) (AfterElement acc fs) ([0x2C, 0x0A] @ replicate n 0x20)
     = ExpectValue (ArrayFrame acc # fs)"
  by (simp add: skip_spaces)

lemma separator_in_object:
  "foldl (step nv) (AfterMember ps fs) ([0x2C, 0x0A] @ replicate n 0x20) = ExpectKey ps fs"
  by (simp add: skip_spaces)

lemma close_array:
  "foldl (step nv) (AfterElement xs fs) ([0x0A] @ replicate n 0x20 @ [0x5D])
     = deliver (JArr xs) fs"
  by (simp add: skip_spaces)

lemma close_object:
  "foldl (step nv) (AfterMember ps fs) ([0x0A] @ replicate n 0x20 @ [0x7D])
     = deliver (JObj (own_property_order ps)) fs"
  by (simp add: skip_spaces)

lemma open_array:
  "foldl (step nv) (ExpectValue fs) ([0x5B, 0x0A] @ replicate n 0x20) = ExpectFirstElement fs"
  by (simp add: skip_spaces begin_value_def)

lemma open_object:
  "foldl (step nv) (ExpectValue fs) ([0x7B, 0x0A] @ replicate n 0x20 @ [0x22])
     = InString (KeyOf [] fs) []"
  by (simp add: skip_spaces begin_value_def)

text \<open>Reading the text of a plain value where a value is expected delivers that value.\<close>

lemma read_serialized:
  "plain v \<Longrightarrow> foldl (step nv) (ExpectValue fs) (serialize nt i v) = deliver v fs"
proof (induction v arbitrary: i fs)
  case JNull
  then show ?case by (simp add: ascii_def begin_value_def)
next
  case (JBool b)
  then show ?case by (simp add: ascii_def begin_value_def)
next
  case (JNum n)
  then show ?case by simp
next
  case (JStr s)
  then show ?case
    by (simp add: quote_json_string_def begin_value_def read_quote_units)
next
  case (JArr xs)
  show ?case
  proof (cases xs)
    case Nil
    then show ?thesis by (simp add: ascii_def begin_value_def)
  next
    case (Cons x xs')
    define sep :: jsstring where "sep = [0x2C, 0x0A] @ replicate (i + 2) 0x20"
    define head_part :: jsstring where "head_part = [0x5B, 0x0A] @ replicate (i + 2) 0x20"
    define tail_part :: jsstring where "tail_part = [0x0A] @ replicate i 0x20 @ [0x5D]"
    define others where "others = concat (map ((@) sep) (map (serialize nt (i + 2)) xs'))"
    from JArr.prems Cons have px: "plain x" and pxs: "\<forall>y \<in> set xs'. plain y"
      by (simp_all add: list_all_iff)
    have srl: "serialize nt i (JArr xs) = head_part @ serialize nt (i + 2) x @ others @ tail_part"
      by (simp add: Cons join_def sep_def head_part_def tail_part_def others_def)
    have "open": "foldl (step nv) (ExpectValue fs) head_part = ExpectFirstElement fs"
      unfolding head_part_def by (rule open_array)
    have first: "foldl (step nv) (ExpectFirstElement fs) (serialize nt (i + 2) x)
        = AfterElement [x] fs"
      by (rule read_first_element [OF px]) (rule JArr.IH, simp add: Cons, rule px)
    have rest: "foldl (step nv) (AfterElement [x] fs) others = AfterElement ([x] @ xs') fs"
      unfolding others_def sep_def
      by (rule read_elements) (rule separator_in_array, rule JArr.IH, simp add: Cons,
          simp add: pxs)
    have close: "foldl (step nv) (AfterElement ([x] @ xs') fs) tail_part
        = deliver (JArr ([x] @ xs')) fs"
      unfolding tail_part_def by (rule close_array)
    show ?thesis
      unfolding srl
      by (simp only: foldl_append "open" first rest close) (simp add: Cons)
  qed
next
  case (JObj kvs)
  show ?case
  proof (cases kvs)
    case Nil
    then show ?thesis by (simp add: ascii_def begin_value_def)
  next
    case (Cons kv kvs')
    obtain k v where kv: "kv = (k, v)" by (cases kv)
    define sep :: jsstring where "sep = [0x2C, 0x0A] @ replicate (i + 2) 0x20"
    define head_part :: jsstring where "head_part = [0x7B, 0x0A] @ replicate (i + 2) 0x20 @ [0x22]"
    define tail_part :: jsstring where "tail_part = [0x0A] @ replicate i 0x20 @ [0x7D]"
    define member where
      "member = quote_units k @ [0x22] @ [0x3A, 0x20] @ serialize nt (i + 2) v"
    define others where "others = concat (map ((@) sep)
              (map (\<lambda>(k, v). [0x22] @ quote_units k @ [0x22] @ [0x3A, 0x20]
                                @ serialize nt (i + 2) v) kvs'))"
    from JObj.prems have d: "distinct (map fst kvs)"
      and ni: "list_all (\<lambda>(k, v). \<not> is_array_index k \<and> plain v) kvs"
      by simp_all
    have ih: "foldl (step nv) (ExpectValue fs') (serialize nt i' (snd p)) = deliver (snd p) fs'"
      if "p \<in> set kvs" for p i' fs'
    proof -
      from that ni have "plain (snd p)" by (auto simp: list_all_iff)
      moreover have "snd p \<in> Basic_BNFs.snds p" by (cases p) simp
      ultimately show ?thesis using JObj.IH that by blast
    qed
    have srl: "serialize nt i (JObj kvs) = head_part @ member @ others @ tail_part"
      by (simp add: Cons kv join_def sep_def quote_json_string_def head_part_def tail_part_def
          member_def others_def)
    have "open": "foldl (step nv) (ExpectValue fs) head_part = InString (KeyOf [] fs) []"
      unfolding head_part_def by (rule open_object)
    have first: "foldl (step nv) (InString (KeyOf [] fs) []) member
         = AfterMember (define_property [] k v) fs"
      unfolding member_def
      by (rule read_member) (use ih [of kv] kv Cons in simp)
    have rest: "foldl (step nv) (AfterMember (define_property [] k v) fs) others
         = AfterMember (foldl (\<lambda>ps (k, v). define_property ps k v) (define_property [] k v) kvs')
             fs"
      unfolding others_def sep_def
      by (rule read_members) (rule separator_in_object, use ih Cons in simp)
    have all: "foldl (\<lambda>ps (k, v). define_property ps k v) (define_property [] k v) kvs' = kvs"
      using define_properties_distinct [of "[]" kvs] d by (simp add: Cons kv)
    have close: "foldl (step nv) (AfterMember kvs fs) tail_part
        = deliver (JObj (own_property_order kvs)) fs"
      unfolding tail_part_def by (rule close_object)
    show ?thesis
      unfolding srl
      by (simp only: foldl_append "open" first rest all close
          own_property_order_plain [OF ni])
  qed
qed

text \<open>Parsing the text of a plain value gives the value back.\<close>

lemma JSON_parse_stringify:
  "plain v \<Longrightarrow> JSON_parse nv (JSON_stringify nt v) = Inr v"
  by (simp add: JSON_parse_def JSON_stringify_def read_serialized)

subsection \<open>The text as a file\<close>

lemma well_formed_Cons:
  "\<not> is_leading_surrogate c \<Longrightarrow> \<not> is_trailing_surrogate c \<Longrightarrow>
   well_formed (c # s) = well_formed s"
  by (cases s) simp_all

lemma well_formed_append:
  "well_formed a \<Longrightarrow> well_formed b \<Longrightarrow> well_formed (a @ b)"
proof (induction a rule: well_formed.induct)
  case 1
  then show ?case by simp
next
  case (2 c)
  then show ?case by (simp add: well_formed_Cons)
next
  case (3 c d cs)
  then show ?case by (simp split: if_splits)
qed

lemma well_formed_concat:
  "\<forall>s \<in> set ss. well_formed s \<Longrightarrow> well_formed (concat ss)"
  by (induction ss) (simp_all add: well_formed_append)

lemma not_surrogate:
  assumes "c < 0xD800"
  shows "\<not> is_leading_surrogate c" "\<not> is_trailing_surrogate c"
proof -
  from assms have "\<not> 0xD800 \<le> c" by simp
  moreover have "\<not> 0xDC00 \<le> c"
  proof
    assume "0xDC00 \<le> c"
    from this assms have "(0xDC00 :: code_unit) < 0xD800" by (rule order.strict_trans1)
    then show False by simp
  qed
  ultimately show "\<not> is_leading_surrogate c" "\<not> is_trailing_surrogate c"
    by (simp_all add: is_leading_surrogate_def is_trailing_surrogate_def)
qed

lemma below_surrogates_well_formed: "list_all (\<lambda>c. c < 0xD800) s \<Longrightarrow> well_formed s"
  by (induction s) (simp_all add: well_formed_Cons not_surrogate)

lemma hex_digit_below_surrogates: "d < 16 \<Longrightarrow> hex_digit d < 0xD800"
proof -
  assume "d < 16"
  then have "d = 0 \<or> d = 1 \<or> d = 2 \<or> d = 3 \<or> d = 4 \<or> d = 5 \<or> d = 6 \<or> d = 7 \<or> d = 8
      \<or> d = 9 \<or> d = 10 \<or> d = 11 \<or> d = 12 \<or> d = 13 \<or> d = 14 \<or> d = 15"
    by presburger
  then show ?thesis by (elim disjE) (simp_all add: hex_digit_values)
qed

lemma well_formed_unicode_escape: "well_formed (unicode_escape c)"
proof -
  have "unat c div 4096 < 16" by (rule unat_code_unit_div_4096)
  then show ?thesis
    by (intro below_surrogates_well_formed)
      (simp add: unicode_escape_def hex_digit_below_surrogates)
qed

lemma well_formed_quote_unit:
  "\<not> is_leading_surrogate c \<Longrightarrow> \<not> is_trailing_surrogate c \<Longrightarrow> well_formed (quote_unit c)"
  by (simp add: quote_unit_def well_formed_unicode_escape not_surrogate)

lemma well_formed_quote_units: "well_formed (quote_units s)"
  by (induction s rule: quote_units.induct)
    (simp_all add: well_formed_unicode_escape well_formed_quote_unit well_formed_append)

lemma well_formed_quoted: "well_formed (quote_json_string s)"
  by (simp add: quote_json_string_def well_formed_append well_formed_quote_units
      well_formed_Cons not_surrogate)

lemma well_formed_join:
  "well_formed sep \<Longrightarrow> \<forall>p \<in> set ps. well_formed p \<Longrightarrow> well_formed (join sep ps)"
  by (cases ps) (auto simp: join_def intro!: well_formed_append well_formed_concat)

lemma well_formed_spaces: "well_formed (replicate n 0x20)"
  by (rule below_surrogates_well_formed) (simp add: list_all_iff)

lemma well_formed_separator: "well_formed ([0x2C, 0x0A] @ replicate n 0x20)"
  by (rule below_surrogates_well_formed) (simp add: list_all_iff)

lemma well_formed_literals:
  "well_formed (ascii ''null'')" "well_formed (ascii ''true'')" "well_formed (ascii ''false'')"
  "well_formed (ascii ''[]'')" "well_formed (ascii ''{}'')"
  by (simp_all add: ascii_def not_surrogate)

lemma well_formed_serialize:
  "plain v \<Longrightarrow> well_formed (serialize nt i v)"
proof (induction v arbitrary: i)
  case (JArr xs)
  then have "\<forall>p \<in> set (map (serialize nt (i + 2)) xs). well_formed p"
    by (auto simp: list_all_iff)
  then have "well_formed (join ([0x2C, 0x0A] @ replicate (i + 2) 0x20)
      (map (serialize nt (i + 2)) xs))"
    by (intro well_formed_join well_formed_separator)
  then show ?case
    by (auto simp: well_formed_literals well_formed_Cons not_surrogate
        intro!: well_formed_append well_formed_spaces)
next
  case (JObj kvs)
  have "\<forall>p \<in> set (map (\<lambda>(k, v). quote_json_string k @ [0x3A, 0x20] @ serialize nt (i + 2) v)
      kvs). well_formed p"
  proof
    fix p
    assume "p \<in> set (map (\<lambda>(k, v). quote_json_string k @ [0x3A, 0x20]
      @ serialize nt (i + 2) v) kvs)"
    then obtain k v where kv: "(k, v) \<in> set kvs"
      and p: "p = quote_json_string k @ [0x3A, 0x20] @ serialize nt (i + 2) v"
      by auto
    from kv JObj.prems have "plain v" by (auto simp: list_all_iff)
    with kv JObj.IH [of "(k, v)" v "i + 2"] have "well_formed (serialize nt (i + 2) v)"
      by simp
    then have "well_formed ([0x3A, 0x20] @ serialize nt (i + 2) v)"
      by (simp add: well_formed_Cons not_surrogate)
    with p show "well_formed p" by (simp only: well_formed_append well_formed_quoted)
  qed
  then have "well_formed (join ([0x2C, 0x0A] @ replicate (i + 2) 0x20)
      (map (\<lambda>(k, v). quote_json_string k @ [0x3A, 0x20] @ serialize nt (i + 2) v) kvs))"
    by (intro well_formed_join well_formed_separator)
  then show ?case
    by (auto simp: well_formed_literals well_formed_Cons not_surrogate
        intro!: well_formed_append well_formed_spaces)
qed (simp_all add: well_formed_literals well_formed_quoted)

text \<open>The text of a plain value has no surrogate outside a pair.\<close>

lemma well_formed_JSON_stringify: "plain v \<Longrightarrow> well_formed (JSON_stringify nt v)"
  by (simp add: JSON_stringify_def well_formed_serialize)

subsection \<open>An exported text\<close>

text \<open>
  The text of a one-element array holding an object with one property, as exported: one
  element and one member to a line, indented by two spaces a level.
\<close>

lemma JSON_stringify_sample:
  "JSON_stringify nt (JArr [element_id_only])
     = ascii ''['' @ [0x0A]
       @ ascii ''  {'' @ [0x0A]
       @ ascii ''    '' @ [0x22] @ ascii ''id'' @ [0x22] @ ascii '': '' @ [0x22] @ ascii ''2''
       @ [0x22, 0x0A]
       @ ascii ''  }'' @ [0x0A]
       @ ascii '']''"
  by (simp add: JSON_stringify_def join_def quote_json_string_def quote_unit_def ascii_def
      is_leading_surrogate_def is_trailing_surrogate_def element_id_only_def)

section \<open>Export followed by import\<close>

lemma record_key_toJS: "record_key (toJS r) = Some (JStr (id_of r))"
  by (simp add: record_key_def toJS_def)

lemma category_string_not_empty: "category_string c \<noteq> []"
  by (cases c) simp_all

text \<open>A typed record passes the guard of the import when its id and prompt are non-empty.\<close>

lemma importable_toJS: "importable (toJS r) \<longleftrightarrow> id_of r \<noteq> [] \<and> prompt r \<noteq> []"
  by (auto simp: importable_def has_truthy_def toJS_def optional_prop_def map_add_def
      category_string_not_empty split: option.splits)

text \<open>
  The object of a typed record is plain: its property names are pairwise different
  words, its values are strings, booleans and an array of strings.
\<close>

lemma not_array_index_word:
  "\<not> is_array_index (ascii ''id'')" "\<not> is_array_index (ascii ''title'')"
  "\<not> is_array_index (ascii ''prompt'')" "\<not> is_array_index (ascii ''negativePrompt'')"
  "\<not> is_array_index (ascii ''category'')" "\<not> is_array_index (ascii ''outputMediaUrl'')"
  "\<not> is_array_index (ascii ''inputMediaUrl'')" "\<not> is_array_index (ascii ''modelUsed'')"
  "\<not> is_array_index (ascii ''tags'')" "\<not> is_array_index (ascii ''isVideo'')"
  by (simp_all add: is_array_index_def is_digit_def ascii_def)

lemma plain_toJS: "plain (toJS r)"
  by (auto simp: toJS_def optional_prop_def not_array_index_word list_all_iff
      split: option.splits)

lemma upsert_fresh:
  assumes "record_key r \<notin> record_key ` set st"
  shows "upsert st r = st @ [r]"
proof -
  from assms have "\<not> (\<exists>x \<in> set st. record_key x = record_key r)"
    by (metis image_eqI)
  then show ?thesis by (simp add: upsert_def)
qed

text \<open>The modelled store never holds two records under one id.\<close>

lemma upsert_keys:
  "map record_key (upsert st r) =
     (if record_key r \<in> set (map record_key st) then map record_key st
      else map record_key st @ [record_key r])"
proof (cases "\<exists>x \<in> set st. record_key x = record_key r")
  case True
  then have "record_key r \<in> set (map record_key st)"
    by (metis image_eqI list.set_map)
  moreover have "map record_key (map (\<lambda>x. if record_key x = record_key r then r else x) st)
      = map record_key st"
    by (induction st) auto
  ultimately show ?thesis using True by (simp add: upsert_def)
next
  case False
  then have "record_key r \<notin> set (map record_key st)"
    by (metis imageE list.set_map)
  with False show ?thesis by (simp add: upsert_def)
qed

lemma upsert_keeps_distinct:
  "distinct (map record_key st) \<Longrightarrow> distinct (map record_key (upsert st r))"
  by (simp add: upsert_keys)

lemma foldl_upsert_distinct:
  "distinct (map record_key (st @ xs)) \<Longrightarrow> foldl upsert st xs = st @ xs"
proof (induction xs arbitrary: st)
  case Nil
  then show ?case by simp
next
  case (Cons x xs)
  then have fresh: "record_key x \<notin> record_key ` set st" by auto
  from Cons.prems have "distinct (map record_key ((st @ [x]) @ xs))" by simp
  from Cons.IH [OF this] upsert_fresh [OF fresh] show ?case by simp
qed

text \<open>
  Importing an array whose elements all pass the guard, with a \<^verbatim>\<open>save\<close> that never
  rejects, saves every element in order.
\<close>

lemma import_parsed_all_importable:
  assumes "\<forall>x \<in> set xs. importable x"
  shows "import_parsed (\<lambda>d x. Inr (f d x)) (JArr xs) d =
           \<lparr>db = foldl f d xs, save_calls = xs,
            statusMsg = Some \<lparr>msg_type = success, msg_text = Restored (length xs)\<rparr>,
            onDataUpdate_called = True\<rparr>"
proof -
  from assms have nn: "JNull \<notin> set xs"
    by (auto simp: importable_def has_truthy_def)
  from assms have f: "filter importable xs = xs" by (simp add: filter_id_conv)
  from import_loop_total [OF nn, of f d "[]" 0] f show ?thesis
    by (simp add: import_parsed_def)
qed

text \<open>
  Claim C6. Let the stored records have non-empty id and prompt and pairwise different
  ids. Then the export of the stored collection succeeds with its \<^verbatim>\<open>JSON.stringify\<close>
  text as the file; that text has no surrogate outside a pair, so the file gives it back;
  \<^verbatim>\<open>JSON.parse\<close> reads it as the very same array, every property of every record
  included; importing the file hands every record, unchanged and in order, to \<^verbatim>\<open>db.save\<close>
  and reports all of them as restored, whatever a \<^verbatim>\<open>save\<close> that does not reject does with
  them; and on the modelled store, starting empty, the import leaves the same collection
  as was exported.
\<close>

theorem export_import_roundtrip:
  assumes valid: "\<forall>r \<in> set records. id_of r \<noteq> [] \<and> prompt r \<noteq> []"
    and ids: "distinct (map id_of records)"
  shows "handleExport db_getAll (\<lambda>v. Inr (JSON_stringify number_text v)) (map toJS records)
           = (Some (JSON_stringify number_text (JArr (map toJS records))),
              \<lparr>msg_type = success, msg_text = ExportDone\<rparr>)
         \<and> well_formed (JSON_stringify number_text (JArr (map toJS records)))
         \<and> JSON_parse number_value (JSON_stringify number_text (JArr (map toJS records)))
           = Inr (JArr (map toJS records))
         \<and> handleFileChange (JSON_parse number_value) (\<lambda>d x. Inr (f d x))
               (JSON_stringify number_text (JArr (map toJS records))) d
           = \<lparr>db = foldl f d (map toJS records), save_calls = map toJS records,
              statusMsg = Some \<lparr>msg_type = success, msg_text = Restored (length records)\<rparr>,
              onDataUpdate_called = True\<rparr>
         \<and> handleFileChange (JSON_parse number_value) db_save
               (JSON_stringify number_text (JArr (map toJS records))) []
           = \<lparr>db = map toJS records, save_calls = map toJS records,
              statusMsg = Some \<lparr>msg_type = success, msg_text = Restored (length records)\<rparr>,
              onDataUpdate_called = True\<rparr>"
proof -
  have p: "plain (JArr (map toJS records))"
    by (simp add: list_all_iff plain_toJS)
  note parse = JSON_parse_stringify [OF p, of number_value number_text]
  note wf = well_formed_JSON_stringify [OF p, of number_text]
  from valid have imp: "\<forall>x \<in> set (map toJS records). importable x"
    by (simp add: importable_toJS)
  have "map record_key (map toJS records) = map (\<lambda>r. Some (JStr (id_of r))) records"
    by (simp add: record_key_toJS)
  also have "\<dots> = map (Some \<circ> JStr) (map id_of records)" by simp
  finally have keys: "distinct (map record_key (map toJS records))"
    using ids by (simp only: distinct_map) (auto simp: inj_on_def)
  have s: "db_save = (\<lambda>d x. Inr (upsert d x))" by (simp add: fun_eq_iff db_save_def)
  have u: "foldl upsert [] (map toJS records) = map toJS records"
    using foldl_upsert_distinct [of "[]" "map toJS records"] keys by simp
  have e: "handleExport db_getAll (\<lambda>v. Inr (JSON_stringify number_text v)) (map toJS records)
           = (Some (JSON_stringify number_text (JArr (map toJS records))),
              \<lparr>msg_type = success, msg_text = ExportDone\<rparr>)"
    by (simp add: handleExport_def db_getAll_def)
  have i: "handleFileChange (JSON_parse number_value) (\<lambda>d x. Inr (g d x))
               (JSON_stringify number_text (JArr (map toJS records))) d'
           = \<lparr>db = foldl g d' (map toJS records), save_calls = map toJS records,
              statusMsg = Some \<lparr>msg_type = success, msg_text = Restored (length records)\<rparr>,
              onDataUpdate_called = True\<rparr>" for g :: "'s \<Rightarrow> json \<Rightarrow> 's" and d'
    using import_parsed_all_importable [OF imp, of g d']
    by (simp add: handleFileChange_def parse)
  from e wf parse i [of f d] i [of upsert "[]"] show ?thesis
    by (simp only: s u)
qed

text \<open>
  A store of two sample records, exported and imported into the empty store; the text
  has no number in it, so the parameters for numbers play no part.
\<close>

theorem export_import_roundtrip_witness:
  "JSON_parse (\<lambda>s. 0) (JSON_stringify (\<lambda>n. []) (JArr (map toJS [sample_general, sample_image])))
     = Inr (JArr (map toJS [sample_general, sample_image]))
   \<and> handleFileChange (JSON_parse (\<lambda>s. 0)) db_save
       (JSON_stringify (\<lambda>n. []) (JArr (map toJS [sample_general, sample_image]))) []
     = \<lparr>db = map toJS [sample_general, sample_image],
        save_calls = map toJS [sample_general, sample_image],
        statusMsg = Some \<lparr>msg_type = success, msg_text = Restored 2\<rparr>,
        onDataUpdate_called = True\<rparr>"
proof -
  have valid: "\<forall>r \<in> set [sample_general, sample_image]. id_of r \<noteq> [] \<and> prompt r \<noteq> []"
    by (simp add: sample_general_def sample_image_def)
  have ids: "distinct (map id_of [sample_general, sample_image])"
    by (simp add: sample_general_def sample_image_def)
  from export_import_roundtrip
    [OF valid ids, of "\<lambda>n. []" "\<lambda>s. 0" "\<lambda>d x. d" "()"]
  show ?thesis by simp
qed

section \<open>Properties of the filter\<close>

lemma includes_str_sublist: "includes_str s q \<longleftrightarrow> sublist q s"
  by (induction s) (simp_all add: sublist_Cons_right)


text \<open>With the empty search text the filter is the filter on the category alone.\<close>

lemma filteredItems_empty_search:
  "toLowerCase [] = [] \<Longrightarrow>
   filteredItems toLowerCase its activeCategory []
     = filter (\<lambda>item. category item = activeCategory) its"
  by (simp add: filteredItems_def matchesSearch_def includes_str_sublist)






section \<open>Properties of the form\<close>

lemma newErrors_nonempty_iff:
  "newErrors formData \<noteq> [] \<longleftrightarrow>
     (case title_opt formData of None \<Rightarrow> True | Some t \<Rightarrow> trim t = [])
     \<or> (case prompt_opt formData of None \<Rightarrow> True | Some p \<Rightarrow> trim p = [])
     \<or> (category_opt formData \<noteq> Some general
         \<and> (case outputMediaUrl_opt formData of None \<Rightarrow> True | Some u \<Rightarrow> u = []))"
  by (auto simp: newErrors_def truthy_string_def split: option.splits)

text \<open>A form that passes the three checks is handed to the callback.\<close>

lemma valid_form_saved:
  "newErrors formData = [] \<Longrightarrow> onSave_calls (handleSubmit onSave formData w) = [formData]"
  by (simp add: handleSubmit_def split: sum.splits)

text \<open>A string of white space only, of whatever kind, is empty after \<^verbatim>\<open>trim\<close>.\<close>

lemma trim_white_space:
  assumes "list_all isWhiteSpace s"
  shows "trim s = []"
proof -
  from assms have d: "dropWhile isWhiteSpace s = []"
    by (simp add: dropWhile_eq_Nil_conv list_all_iff)
  show ?thesis unfolding trim_def d by simp
qed

lemma trim_empty_iff: "trim s = [] \<longleftrightarrow> list_all isWhiteSpace s"
proof
  assume "trim s = []"
  then have "dropWhile isWhiteSpace (rev (dropWhile isWhiteSpace s)) = []"
    by (simp add: trim_def)
  then have a: "\<forall>c \<in> set (dropWhile isWhiteSpace s). isWhiteSpace c"
    by (simp add: dropWhile_eq_Nil_conv)
  have "dropWhile isWhiteSpace s = []"
  proof (rule ccontr)
    assume "dropWhile isWhiteSpace s \<noteq> []"
    then have "\<not> isWhiteSpace (hd (dropWhile isWhiteSpace s))"
      by (rule hd_dropWhile)
    moreover from \<open>dropWhile isWhiteSpace s \<noteq> []\<close>
    have "hd (dropWhile isWhiteSpace s) \<in> set (dropWhile isWhiteSpace s)" by simp
    ultimately show False using a by blast
  qed
  then show "list_all isWhiteSpace s"
    by (simp add: dropWhile_eq_Nil_conv list_all_iff)
qed (rule trim_white_space)

text \<open>
  Claim C5. A submission whose title or prompt is missing or empty after \<^verbatim>\<open>trim\<close>, or
  whose category is not \<^verbatim>\<open>general\<close> while its \<^verbatim>\<open>outputMediaUrl\<close> is missing or empty, stops
  at validation: the errors are set, \<^verbatim>\<open>onSave\<close> is not called (so nothing reaches
  \<^verbatim>\<open>db.save\<close>, which the form reaches through \<^verbatim>\<open>onSave\<close> only), the owner's state is
  untouched and the form stays open.
\<close>

theorem invalid_form_never_saved:
  assumes "(case title_opt formData of None \<Rightarrow> True | Some t \<Rightarrow> trim t = [])
     \<or> (case prompt_opt formData of None \<Rightarrow> True | Some p \<Rightarrow> trim p = [])
     \<or> (category_opt formData \<noteq> Some general
         \<and> (case outputMediaUrl_opt formData of None \<Rightarrow> True | Some u \<Rightarrow> u = []))"
  shows "handleSubmit onSave formData w =
           \<lparr>owner_state = w, onSave_calls = [], setErrors_arg = Some (newErrors formData),
            isSaving = False, onClose_called = False\<rparr>"
proof -
  from assms have "newErrors formData \<noteq> []" by (simp only: newErrors_nonempty_iff)
  then show ?thesis by (simp add: handleSubmit_def)
qed

text \<open>
  The two sample forms, with a callback that would append the submitted data to its
  owner's list: the list stays empty; the one error is on \<^verbatim>\<open>outputMediaUrl\<close> for the
  first form and on the title of no-break spaces for the second.
\<close>

theorem invalid_form_never_saved_witness:
  "handleSubmit (\<lambda>formData w. Inr (w @ [formData])) sample_form [] =
     \<lparr>owner_state = [], onSave_calls = [], setErrors_arg = Some [ascii ''outputMediaUrl''],
      isSaving = False, onClose_called = False\<rparr>
   \<and> handleSubmit (\<lambda>formData w. Inr (w @ [formData])) sample_form_blank_title [] =
     \<lparr>owner_state = [], onSave_calls = [], setErrors_arg = Some [ascii ''title''],
      isSaving = False, onClose_called = False\<rparr>"
proof -
  have h: "(case title_opt sample_form of None \<Rightarrow> True | Some t \<Rightarrow> trim t = [])
     \<or> (case prompt_opt sample_form of None \<Rightarrow> True | Some p \<Rightarrow> trim p = [])
     \<or> (category_opt sample_form \<noteq> Some general
         \<and> (case outputMediaUrl_opt sample_form of None \<Rightarrow> True | Some u \<Rightarrow> u = []))"
    by (simp add: sample_form_def)
  have e: "newErrors sample_form = [ascii ''outputMediaUrl'']"
    by (simp add: newErrors_def sample_form_def truthy_string_def trim_def isWhiteSpace_def
        ascii_def)
  have h': "(case title_opt sample_form_blank_title of None \<Rightarrow> True | Some t \<Rightarrow> trim t = [])
     \<or> (case prompt_opt sample_form_blank_title of None \<Rightarrow> True | Some p \<Rightarrow> trim p = [])
     \<or> (category_opt sample_form_blank_title \<noteq> Some general
         \<and> (case outputMediaUrl_opt sample_form_blank_title of
              None \<Rightarrow> True | Some u \<Rightarrow> u = []))"
    by (simp add: sample_form_blank_title_def trim_def isWhiteSpace_def)
  have e': "newErrors sample_form_blank_title = [ascii ''title'']"
    by (simp add: newErrors_def sample_form_blank_title_def truthy_string_def trim_def
        isWhiteSpace_def ascii_def)
  from invalid_form_never_saved [OF h, of "\<lambda>formData w. Inr (w @ [formData])" "[]"] e
    invalid_form_never_saved [OF h', of "\<lambda>formData w. Inr (w @ [formData])" "[]"] e'
  show ?thesis by simp
qed

section \<open>Properties of saving\<close>

text \<open>
  Claim C7. While a record is being edited, saving maps the in-memory list: every entry
  whose id is the submitted one becomes the submitted data as a whole, every other entry
  stays as it is, at its position; the submitted data as a whole is handed to \<^verbatim>\<open>db.save\<close>.
\<close>

theorem edit_replaces_whole_record:
  assumes "editingItem st \<noteq> None"
  shows "items (handleSaveItem save now itemData st)
           = map (\<lambda>item. if id_of item = id_of itemData then itemData else item) (items st)
         \<and> (\<forall>i < length (items st).
               items (handleSaveItem save now itemData st) ! i
                 = (if id_of (items st ! i) = id_of itemData then itemData else items st ! i))
         \<and> db_save_calls (handleSaveItem save now itemData st)
             = db_save_calls st @ [toJS itemData]"
  using assms by (simp add: handleSaveItem_def Let_def split: sum.splits)

text \<open>Editing the title and tags of the second of two records.\<close>

theorem edit_replaces_whole_record_witness:
  "items (handleSaveItem db_save 1730000000999
            (sample_image\<lparr>title := ascii ''Sky city'', tags := [ascii ''city'']\<rparr>)
            \<lparr>items = [sample_general, sample_image], selectedItem = None,
             editingItem = Some sample_image,
             storage = map toJS [sample_general, sample_image],
             db_save_calls = [], alerts = 0\<rparr>)
     = [sample_general, sample_image\<lparr>title := ascii ''Sky city'', tags := [ascii ''city'']\<rparr>]"
proof -
  have h: "editingItem \<lparr>items = [sample_general, sample_image], selectedItem = None,
             editingItem = Some sample_image,
             storage = map toJS [sample_general, sample_image],
             db_save_calls = [], alerts = 0\<rparr> \<noteq> None" by simp
  from edit_replaces_whole_record [OF h, of db_save 1730000000999
      "sample_image\<lparr>title := ascii ''Sky city'', tags := [ascii ''city'']\<rparr>"]
  show ?thesis by (simp add: sample_general_def sample_image_def)
qed

text \<open>The id given to a new record is never the empty string.\<close>

lemma toString_not_empty: "toString n \<noteq> []"
  by (subst toString.simps) simp



section \<open>Properties of the prompt refinement\<close>

text \<open>
  Claim C8. The promise of \<^verbatim>\<open>refinePrompt\<close> never rejects: it always resolves to a
  string. Without an API key (undefined or empty) that string is the fixed message that
  the key is missing; when the remote call rejects, it is the fixed message that the
  service could not be reached. The function only reads its argument.
\<close>

theorem refinePrompt_never_rejects:
  "(\<exists>s. refinePrompt env_API_KEY generateContent originalPrompt = Inr s)
   \<and> (env_API_KEY = None \<or> env_API_KEY = Some [] \<longrightarrow>
        refinePrompt env_API_KEY generateContent originalPrompt
          = Inr (ascii ''API Key missing. Unable to refine prompt.''))
   \<and> (\<forall>k e. env_API_KEY = Some k \<and> k \<noteq> []
          \<and> generateContent \<lparr>apiKey = k\<rparr>
               \<lparr>model = ascii ''gemini-2.5-flash'',
                contents = request_contents originalPrompt\<rparr>
             = Inl e
        \<longrightarrow> refinePrompt env_API_KEY generateContent originalPrompt
              = Inr (ascii ''Error communicating with AI service.''))"
  by (auto simp: refinePrompt_def getAiClient_def try_catch_def split: option.splits sum.splits)

text \<open>A remote call that always rejects, without a key and with one.\<close>

theorem refinePrompt_never_rejects_witness:
  "refinePrompt None (\<lambda>ai request. Inl (Error (ascii ''network''))) (ascii ''a cat'')
     = Inr (ascii ''API Key missing. Unable to refine prompt.'')
   \<and> refinePrompt (Some (ascii ''key'')) (\<lambda>ai request. Inl (Error (ascii ''network'')))
       (ascii ''a cat'')
     = Inr (ascii ''Error communicating with AI service.'')"
  using refinePrompt_never_rejects
      [of None "\<lambda>ai request. Inl (Error (ascii ''network''))" "ascii ''a cat''"]
    refinePrompt_never_rejects
      [of "Some (ascii ''key'')" "\<lambda>ai request. Inl (Error (ascii ''network''))"
        "ascii ''a cat''"]
  by simp

end
